theory Spec2Isabelle
  imports Complex_Main
begin

section \<open>Numbers\<close>

text \<open>
  The program is JavaScript; every number in it is a Number.  The model takes \<^typ>\<open>real\<close>
  for Number: \<open>+\<close>, \<open>-\<close>, \<open>*\<close>, \<open>/\<close>, \<open>Math.sqrt\<close>, \<open>Math.cos\<close>, \<open>Math.sin\<close>
  and \<open>Math.log\<close> are the exact operations, so rounding, \<open>NaN\<close>, the infinities and the
  sign of zero are outside the model.  Where the source can divide by zero or take the
  logarithm of zero, the model writes the case out.
\<close>

text \<open>
  \<open>a % b\<close>: the remainder keeps the sign of the dividend (the quotient is truncated
  towards zero).  The source only takes remainders by 360 and by the sandbox dimensions,
  which are 800 and 600 wherever the source builds an entity; a zero divisor, for which
  JavaScript gives \<open>NaN\<close>, is outside the model.
\<close>

definition js_trunc :: "real \<Rightarrow> int" where
  "js_trunc q = (if 0 \<le> q then \<lfloor>q\<rfloor> else \<lceil>q\<rceil>)"

definition js_mod :: "real \<Rightarrow> real \<Rightarrow> real" where
  "js_mod a b = a - b * of_int (js_trunc (a / b))"

text \<open>\<open>Math.atan2(y, x)\<close>: the angle of the point \<open>(x, y)\<close> in \<open>(-\<pi>, \<pi>]\<close>, and 0 at the origin.\<close>

definition atan2 :: "real \<Rightarrow> real \<Rightarrow> real" where
  "atan2 y x =
     (if 0 < x then arctan (y / x)
      else if x < 0 then (if 0 \<le> y then arctan (y / x) + pi else arctan (y / x) - pi)
      else if 0 < y then pi / 2
      else if y < 0 then - (pi / 2)
      else 0)"

section \<open>Vector\<close>

datatype vector = Vector (vec_x: real) (vec_y: real)

definition radsToDegs :: real where
  "radsToDegs = 57.2957795"

definition degsToRads :: real where
  "degsToRads = 0.0174532925"

definition Vector_toAngle :: "vector \<Rightarrow> real" where
  "Vector_toAngle v =
     (let angle = atan2 (vec_y v) (vec_x v)
      in if angle < 0 then angle + 2 * pi else angle)"

definition Vector_toDegrees :: "vector \<Rightarrow> real" where
  "Vector_toDegrees v = Vector_toAngle v * radsToDegs"

definition Vector_length :: "vector \<Rightarrow> real" where
  "Vector_length v = sqrt (vec_x v * vec_x v + vec_y v * vec_y v)"

definition Vector_normalize :: "vector \<Rightarrow> vector" where
  "Vector_normalize v =
     (let len = Vector_length v
      in if len \<noteq> 0 then Vector (vec_x v / len) (vec_y v / len) else v)"

text \<open>\<open>fromAngle\<close> and \<open>fromDegrees\<close> overwrite the receiver; the model returns the new value.\<close>

definition Vector_fromAngle :: "real \<Rightarrow> vector" where
  "Vector_fromAngle radians = Vector (cos radians) (sin radians)"

definition Vector_fromDegrees :: "real \<Rightarrow> vector" where
  "Vector_fromDegrees degrees = Vector_fromAngle (degrees * degsToRads)"

definition Vector_scale :: "vector \<Rightarrow> real \<Rightarrow> vector" where
  "Vector_scale v amount = Vector (vec_x v * amount) (vec_y v * amount)"

definition Vector_getDistance :: "vector \<Rightarrow> vector \<Rightarrow> real" where
  "Vector_getDistance v point = sqrt ((vec_x point - vec_x v)\<^sup>2 + (vec_y point - vec_y v)\<^sup>2)"

definition Vector_getDirectionTo :: "vector \<Rightarrow> vector \<Rightarrow> vector" where
  "Vector_getDirectionTo v point =
     Vector_normalize (Vector (vec_x point - vec_x v) (vec_y point - vec_y v))"

definition Vector_add :: "vector \<Rightarrow> vector \<Rightarrow> vector" where
  "Vector_add v amount = Vector (vec_x v + vec_x amount) (vec_y v + vec_y amount)"

text \<open>The source's \<open>dot\<close> reads \<open>this.x * vector.x + this.y + vector.y\<close>.\<close>

definition Vector_dot :: "vector \<Rightarrow> vector \<Rightarrow> real" where
  "Vector_dot v w = vec_x v * vec_x w + vec_y v + vec_y w"

section \<open>Biod, Emitter, Predator\<close>

text \<open>
  A Biod, a Predator and an Emitter all carry a \<open>position\<close> and a \<open>radius\<close>, and the first
  two share the fields that \<open>move\<close> reads.  Record extension lets the three keep the
  source's field names.
\<close>

record located =
  position :: vector
  radius :: real

record entity = located +
  speed :: real
  turnSpeed :: real
  sightRadius :: real
  sandboxDimensions :: vector
  heading :: vector

record biod = entity +
  proximityRadius :: real
  claustrophobicSeverity :: real
  majorInfluence :: "string option"
  majorInfluenceStrength :: "real option"
  emitterInfluences :: "vector list"

record emitter = located +
  strength :: real
  functionType :: string
  repel :: bool

record predator = entity +
  scariness :: real
  presence :: real
  emitter :: emitter

text \<open>The three constructors.\<close>

definition Biod ::
  "vector \<Rightarrow> real \<Rightarrow> real \<Rightarrow> real \<Rightarrow> real \<Rightarrow> real \<Rightarrow> real \<Rightarrow> vector \<Rightarrow> biod" where
  "Biod pos spd ts r prox sight claus dims =
     \<lparr>position = pos, radius = r, speed = spd, turnSpeed = ts, sightRadius = sight,
      sandboxDimensions = dims, heading = Vector 1 0,
      proximityRadius = prox, claustrophobicSeverity = claus,
      majorInfluence = None, majorInfluenceStrength = None, emitterInfluences = []\<rparr>"

definition Emitter :: "vector \<Rightarrow> real \<Rightarrow> real \<Rightarrow> string \<Rightarrow> bool \<Rightarrow> emitter" where
  "Emitter pos str r ft rep =
     \<lparr>position = pos, radius = r, strength = str, functionType = ft, repel = rep\<rparr>"

definition Predator ::
  "vector \<Rightarrow> real \<Rightarrow> real \<Rightarrow> real \<Rightarrow> real \<Rightarrow> real \<Rightarrow> real \<Rightarrow> vector \<Rightarrow> predator" where
  "Predator pos spd ts r sight scary pres dims =
     \<lparr>position = pos, radius = r, speed = spd, turnSpeed = ts, sightRadius = sight,
      sandboxDimensions = dims, heading = Vector 1 0,
      scariness = scary, presence = pres, emitter = Emitter pos scary pres ''exp'' True\<rparr>"

section \<open>Biod\<close>

text \<open>
  \<open>move\<close> of Biod and of Predator turn and wrap with the same statements.  \<open>turnedAngle\<close> is
  the angle, in degrees, that \<open>move\<close> hands to \<open>fromDegrees\<close>; \<open>wrapAxis\<close> is the
  assignment to one coordinate followed by its \<open>if\<close>.
\<close>

definition rotationAmount :: "real \<Rightarrow> real \<Rightarrow> real \<Rightarrow> real" where
  "rotationAmount ts currentAngle newAngle =
     (let left = js_mod (newAngle - currentAngle + 360) 360;
          right = js_mod (currentAngle - newAngle + 360) 360
      in if left < right then min ts left else - min ts right)"

definition turnedAngle :: "real \<Rightarrow> real \<Rightarrow> real \<Rightarrow> real" where
  "turnedAngle ts currentAngle newAngle =
     js_mod (currentAngle + rotationAmount ts currentAngle newAngle + 360) 360"

definition wrapAxis :: "real \<Rightarrow> real \<Rightarrow> real" where
  "wrapAxis p d = (let q = js_mod p d in if q < 0 then d else q)"

definition Biod_move :: "biod \<Rightarrow> vector \<Rightarrow> biod" where
  "Biod_move this newHeading =
     (let newAngle = Vector_toDegrees newHeading;
          currentAngle = Vector_toDegrees (heading this);
          hd' = Vector_fromDegrees (turnedAngle (turnSpeed this) currentAngle newAngle);
          positionOffset = Vector_scale hd' (speed this)
      in this\<lparr>heading := hd',
              position := Vector
                (wrapAxis (vec_x (position this) + vec_x positionOffset)
                   (vec_x (sandboxDimensions this)))
                (wrapAxis (vec_y (position this) + vec_y positionOffset)
                   (vec_y (sandboxDimensions this)))\<rparr>)"

text \<open>
  The forward-vision test of \<open>calculateNewHeading\<close> (Biod and Predator): the value of the
  local \<open>cosDot\<close> for an entity with heading \<open>h\<close> at \<open>p\<close> looking at the point \<open>q\<close>.
\<close>

definition cosDot :: "vector \<Rightarrow> vector \<Rightarrow> vector \<Rightarrow> real" where
  "cosDot h p q = cos (Vector_dot h (Vector_getDirectionTo p q))"

text \<open>
  \<open>calculateNewHeading\<close> compares \<open>flock[i] != this\<close> by reference, so the model names
  \<open>this\<close> by its index \<open>self\<close> in the flock.  The first loop collects the visible
  neighbours (their indices); the unused local \<open>pointOnRadii\<close> is left out.
\<close>

definition Biod_neighbors :: "nat \<Rightarrow> biod list \<Rightarrow> nat list" where
  "Biod_neighbors self biods =
     filter (\<lambda>i. Vector_getDistance (position (biods ! i)) (position (biods ! self))
                    \<le> sightRadius (biods ! self)
                \<and> i \<noteq> self
                \<and> 0 < cosDot (heading (biods ! self)) (position (biods ! self))
                      (position (biods ! i)))
       [0..<length biods]"

text \<open>
  The body of the second loop, for one neighbour \<open>n\<close>.  \<open>proximityPoint.scale(...)\<close> returns a
  new vector that the source drops, so \<open>proximityPoint\<close> stays the direction.
\<close>

definition crowdForce :: "biod \<Rightarrow> biod \<Rightarrow> real" where
  "crowdForce this n =
     (let proximityPoint = Vector_getDirectionTo (position this) (position n);
          dist = Vector_getDistance (position n) proximityPoint;
          force = dist * claustrophobicSeverity this
      in if dist < radius this + radius this * 0.1 then force + 1000000 else force)"

definition crowdStep ::
  "biod \<Rightarrow> vector \<times> nat \<times> vector \<times> vector \<Rightarrow> biod \<Rightarrow> vector \<times> nat \<times> vector \<times> vector" where
  "crowdStep this acc n =
     (case acc of (claustrophobia, claustroCount, avgHeading, avgPosition) \<Rightarrow>
        (if Vector_getDistance (position n) (position this) \<le> proximityRadius this
         then (Vector_add claustrophobia
                 (Vector_scale (Vector_getDirectionTo (position n) (position this))
                    (crowdForce this n)),
               claustroCount + 1,
               Vector_add avgHeading (heading n),
               Vector_add avgPosition (position n))
         else (claustrophobia, claustroCount,
               Vector_add avgHeading (heading n),
               Vector_add avgPosition (position n))))"

definition crowdLoop :: "nat \<Rightarrow> biod list \<Rightarrow> vector \<times> nat \<times> vector \<times> vector" where
  "crowdLoop self biods =
     foldl (crowdStep (biods ! self)) (Vector 0 0, 0, Vector 0 0, Vector 0 0)
       (map (\<lambda>i. biods ! i) (Biod_neighbors self biods))"

text \<open>\<open>if (v.x != 0) v.x /= count; if (v.y != 0) v.y /= count\<close>\<close>

definition averageBy :: "vector \<Rightarrow> nat \<Rightarrow> vector" where
  "averageBy v count =
     Vector (if vec_x v \<noteq> 0 then vec_x v / real count else vec_x v)
            (if vec_y v \<noteq> 0 then vec_y v / real count else vec_y v)"

definition Biod_claustrophobia :: "nat \<Rightarrow> biod list \<Rightarrow> vector" where
  "Biod_claustrophobia self biods =
     (case crowdLoop self biods of (claustrophobia, claustroCount, avgHeading, avgPosition) \<Rightarrow>
        averageBy claustrophobia claustroCount)"

definition Biod_avgHeading :: "nat \<Rightarrow> biod list \<Rightarrow> vector" where
  "Biod_avgHeading self biods =
     (case crowdLoop self biods of (claustrophobia, claustroCount, avgHeading, avgPosition) \<Rightarrow>
        Vector_normalize avgHeading)"

definition Biod_avgPosition :: "nat \<Rightarrow> biod list \<Rightarrow> vector" where
  "Biod_avgPosition self biods =
     (case crowdLoop self biods of (claustrophobia, claustroCount, avgHeading, avgPosition) \<Rightarrow>
        Vector_getDirectionTo (position (biods ! self))
          (averageBy avgPosition (length (Biod_neighbors self biods))))"

definition Biod_emitterSum :: "biod \<Rightarrow> vector" where
  "Biod_emitterSum this = foldl Vector_add (Vector 0 0) (emitterInfluences this)"

text \<open>The sum of the four forces, before and after the division by \<open>3 + emitterInfluences.length\<close>.\<close>

definition Biod_forceSum :: "nat \<Rightarrow> biod list \<Rightarrow> vector" where
  "Biod_forceSum self biods =
     Vector_add (Vector_add (Vector_add (Biod_emitterSum (biods ! self))
       (Biod_avgHeading self biods)) (Biod_claustrophobia self biods))
       (Biod_avgPosition self biods)"

definition Biod_combined :: "nat \<Rightarrow> biod list \<Rightarrow> vector" where
  "Biod_combined self biods =
     (let s = Biod_forceSum self biods;
          k = 3 + real (length (emitterInfluences (biods ! self)))
      in Vector (vec_x s / k) (vec_y s / k))"

definition Biod_majorInfluence :: "nat \<Rightarrow> biod list \<Rightarrow> string \<times> real" where
  "Biod_majorInfluence self biods =
     (let claustroFactor = Vector_length (Biod_claustrophobia self biods);
          cohesionFactor = Vector_length (Biod_avgHeading self biods)
                         + Vector_length (Biod_avgPosition self biods);
          emitterFactor = Vector_length (Biod_emitterSum (biods ! self))
      in if claustroFactor \<ge> cohesionFactor \<and> claustroFactor \<ge> emitterFactor
         then (''claustrophobia'', claustroFactor)
         else if cohesionFactor \<ge> emitterFactor then (''cohesion'', cohesionFactor)
         else (''emitter'', emitterFactor))"

text \<open>
  \<open>calculateNewHeading\<close> returns the new heading and leaves \<open>this\<close> with its diagnostic
  fields set and its \<open>emitterInfluences\<close> emptied: the model returns both.
\<close>

definition Biod_calculateNewHeading :: "nat \<Rightarrow> biod list \<Rightarrow> vector \<times> biod" where
  "Biod_calculateNewHeading self biods =
     (Vector_normalize (Biod_combined self biods),
      (biods ! self)\<lparr>majorInfluence := Some (fst (Biod_majorInfluence self biods)),
                     majorInfluenceStrength := Some (snd (Biod_majorInfluence self biods)),
                     emitterInfluences := []\<rparr>)"

section \<open>Emitter\<close>

text \<open>
  \<open>Math.log(0)\<close> is \<open>-Infinity\<close>, and \<open>Math.max(0, -Infinity)\<close> is 0: the model writes the
  case out.  A \<open>functionType\<close> other than the three strings leaves \<open>subAmount\<close> at 0.
\<close>

definition subAmount :: "emitter \<Rightarrow> real \<Rightarrow> real" where
  "subAmount e distance =
     (if functionType e = ''linear'' then min (strength e) distance
      else if functionType e = ''log''
        then (if distance = 0 then 0 else max 0 (ln distance))
      else if functionType e = ''exp'' then max 0 (distance * distance)
      else 0)"

definition influenceStrength :: "emitter \<Rightarrow> real \<Rightarrow> real" where
  "influenceStrength e distance =
     (let s = strength e - subAmount e distance in if s < 0 then 0 else s)"

definition Emitter_influence :: "emitter \<Rightarrow> biod \<Rightarrow> vector" where
  "Emitter_influence e b =
     (let distance = Vector_getDistance (position b) (position e)
      in if repel e
         then Vector_scale (Vector_getDirectionTo (position e) (position b))
                (influenceStrength e distance)
         else Vector_scale (Vector_getDirectionTo (position b) (position e))
                (influenceStrength e distance))"

definition Emitter_update :: "emitter \<Rightarrow> biod list \<Rightarrow> biod list" where
  "Emitter_update e biods =
     map (\<lambda>b. if Vector_getDistance (position b) (position e) \<le> radius e
              then b\<lparr>emitterInfluences := emitterInfluences b @ [Emitter_influence e b]\<rparr>
              else b) biods"

section \<open>Predator\<close>

text \<open>The loop of \<open>Predator.calculateNewHeading\<close> over the flock, one biod at a time.\<close>

definition chaseStep :: "predator \<Rightarrow> biod option \<times> real \<Rightarrow> biod \<Rightarrow> biod option \<times> real" where
  "chaseStep this acc b =
     (case acc of (victim, distanceToVictim) \<Rightarrow>
        if Vector_getDistance (position b) (position this) < distanceToVictim
        then (if 0 < cosDot (heading this) (position this) (position b)
              then (Some b, Vector_getDistance (position b) (position this))
              else (victim, distanceToVictim))
        else (victim, distanceToVictim))"

definition Predator_calculateNewHeading :: "predator \<Rightarrow> biod list \<Rightarrow> vector" where
  "Predator_calculateNewHeading this biods =
     (if length biods = 0 then heading this
      else case fst (foldl (chaseStep this) (None, sightRadius this + 1) biods) of
             Some victim \<Rightarrow> Vector_getDirectionTo (position this) (position victim)
           | None \<Rightarrow> heading this)"

definition Predator_move :: "predator \<Rightarrow> vector \<Rightarrow> biod list \<Rightarrow> predator \<times> biod list" where
  "Predator_move this newHeading biods =
     (let newAngle = Vector_toDegrees newHeading;
          currentAngle = Vector_toDegrees (heading this);
          hd' = Vector_fromDegrees (turnedAngle (turnSpeed this) currentAngle newAngle);
          positionOffset = Vector_scale hd' (speed this);
          pos' = Vector
                (wrapAxis (vec_x (position this) + vec_x positionOffset)
                   (vec_x (sandboxDimensions this)))
                (wrapAxis (vec_y (position this) + vec_y positionOffset)
                   (vec_y (sandboxDimensions this)));
          em' = (emitter this)\<lparr>position := pos'\<rparr>
      in (this\<lparr>heading := hd', position := pos', emitter := em'\<rparr>,
          Emitter_update em' biods))"

section \<open>Flock\<close>

record flock =
  flock :: "biod list"
  emitters :: "emitter list"
  predators :: "predator list"

text \<open>
  The first loop of the simulation part of \<open>update\<close>: the biod at \<open>i\<close> is dead when the
  inner loop finds a predator close enough; \<open>splice(i, 1)\<close> takes it out and both loops
  break.
\<close>

definition isDead :: "biod \<Rightarrow> predator list \<Rightarrow> bool" where
  "isDead b ps =
     list_ex (\<lambda>p. Vector_getDistance (position b) (position p) < max (radius b) (radius p)) ps"

function killLoop :: "nat \<Rightarrow> biod list \<Rightarrow> predator list \<Rightarrow> biod list" where
  "killLoop i biods ps =
     (if i < length biods
      then (if isDead (biods ! i) ps then take i biods @ drop (Suc i) biods
            else killLoop (Suc i) biods ps)
      else biods)"
  by pat_completeness auto
termination
  by (relation "measure (\<lambda>(i, biods, ps). length biods - i)") auto

declare killLoop.simps [simp del]

text \<open>The two loops over the predators: all the new headings first, then the moves.\<close>

fun movePredators :: "(predator \<times> vector) list \<Rightarrow> biod list \<Rightarrow> predator list \<times> biod list" where
  "movePredators [] biods = ([], biods)"
| "movePredators ((p, h) # rest) biods =
     (case Predator_move p h biods of (p', biods') \<Rightarrow>
        case movePredators rest biods' of (ps, biods'') \<Rightarrow> (p' # ps, biods''))"

definition updatePredators :: "predator list \<Rightarrow> biod list \<Rightarrow> predator list \<times> biod list" where
  "updatePredators ps biods =
     (let newPredHeadings = map (\<lambda>p. Predator_calculateNewHeading p biods) ps
      in movePredators (zip ps newPredHeadings) biods)"

text \<open>
  The two loops over the biods.  \<open>calculateNewHeading\<close> writes to its receiver, so the first
  loop threads the flock: the call for \<open>flock[i]\<close> sees what the calls before it left.
\<close>

function headingLoop :: "nat \<Rightarrow> biod list \<Rightarrow> vector list \<Rightarrow> vector list \<times> biod list" where
  "headingLoop i biods newHeadings =
     (if i < length biods
      then headingLoop (Suc i)
             (biods[i := snd (Biod_calculateNewHeading i biods)])
             (newHeadings @ [fst (Biod_calculateNewHeading i biods)])
      else (newHeadings, biods))"
  by pat_completeness auto
termination
  by (relation "measure (\<lambda>(i, biods, hs). length biods - i)") auto

declare headingLoop.simps [simp del]

definition updateBiods :: "biod list \<Rightarrow> biod list" where
  "updateBiods biods =
     (case headingLoop 0 biods [] of (newHeadings, biods') \<Rightarrow>
        map (\<lambda>(b, h). Biod_move b h) (zip biods' newHeadings))"

text \<open>
  The simulation part of \<open>Flock.update\<close>.  The globals it reads are arguments:
  \<open>g_mouseEmitter\<close> (\<open>None\<close> for \<open>null\<close>), \<open>g_mouseIsDown\<close>, and whether key 16 (shift) is
  down.  The keyboard handling before it and the SVG bodies are not part of the model.
\<close>

definition Flock_update :: "flock \<Rightarrow> emitter option \<Rightarrow> bool \<Rightarrow> bool \<Rightarrow> flock" where
  "Flock_update this mouseEmitter mouseIsDown shiftDown =
     (let biods1 = killLoop 0 (flock this) (predators this);
          biods2 = foldl (\<lambda>biods e. Emitter_update e biods) biods1 (emitters this);
          biods3 = (case mouseEmitter of
                      Some e \<Rightarrow> if mouseIsDown
                                then Emitter_update (e\<lparr>repel := shiftDown\<rparr>) biods2
                                else biods2
                    | None \<Rightarrow> biods2)
      in case updatePredators (predators this) biods3 of (ps, biods4) \<Rightarrow>
           this\<lparr>flock := updateBiods biods4, predators := ps\<rparr>)"

section \<open>The specification's terms\<close>

text \<open>
  The falloff kinds and the falloff amount in the specification's words: Linear is
  \<open>min(strength, distance)\<close>, Logarithmic is \<open>max(0, ln(distance))\<close>, Quadratic is
  \<open>max(0, distance\<^sup>2)\<close>.  \<open>falloff_of\<close> reads the source's \<open>functionType\<close> strings as
  these kinds.
\<close>

datatype falloff = Linear | Logarithmic | Quadratic

fun falloffAmount :: "falloff \<Rightarrow> real \<Rightarrow> real \<Rightarrow> real" where
  "falloffAmount Linear str distance = min str distance"
| "falloffAmount Logarithmic str distance = max 0 (ln distance)"
| "falloffAmount Quadratic str distance = max 0 (distance\<^sup>2)"

definition falloff_of :: "string \<Rightarrow> falloff option" where
  "falloff_of ft =
     (if ft = ''linear'' then Some Linear
      else if ft = ''log'' then Some Logarithmic
      else if ft = ''exp'' then Some Quadratic
      else None)"

text \<open>
  The difference of two angles in \<open>[0, 360)\<close> with wraparound at 0/360, and what it is to
  turn from \<open>current\<close> towards \<open>desired\<close> along the shorter of the two arcs
  \<open>(desired - current + 360) % 360\<close> and \<open>(current - desired + 360) % 360\<close> by
  \<open>min(ts, arc)\<close>, ending at the angle \<open>a\<close>.
\<close>

definition angularDifference :: "real \<Rightarrow> real \<Rightarrow> real" where
  "angularDifference a b = min \<bar>a - b\<bar> (360 - \<bar>a - b\<bar>)"

definition turnsTowards :: "real \<Rightarrow> real \<Rightarrow> real \<Rightarrow> real \<Rightarrow> bool" where
  "turnsTowards ts current desired a \<longleftrightarrow>
     (let left = js_mod (desired - current + 360) 360;
          right = js_mod (current - desired + 360) 360
      in (left < right \<longrightarrow>
            a = current + min ts left \<or> a = current + min ts left - 360)
       \<and> (\<not> left < right \<longrightarrow>
            a = current - min ts right \<or> a = current - min ts right + 360))"

text \<open>
  The dot product of two vectors; and the crowding repulsion in the specification's words:
  the radial point lies at distance \<open>proximityRadius\<close> from the biod towards the neighbour,
  the magnitude is the neighbour's distance to it times \<open>crowdingSeverity\<close>, with 1000000
  added when the neighbour is closer to the biod than \<open>bodyRadius * 1.1\<close>.
\<close>

definition dotProduct :: "vector \<Rightarrow> vector \<Rightarrow> real" where
  "dotProduct v w = vec_x v * vec_x w + vec_y v * vec_y w"

definition radialPoint :: "biod \<Rightarrow> biod \<Rightarrow> vector" where
  "radialPoint this n =
     Vector_add (position this)
       (Vector_scale (Vector_getDirectionTo (position this) (position n)) (proximityRadius this))"

definition repulsionMagnitude :: "biod \<Rightarrow> biod \<Rightarrow> real" where
  "repulsionMagnitude this n =
     Vector_getDistance (position n) (radialPoint this n) * claustrophobicSeverity this
       + (if Vector_getDistance (position n) (position this) < radius this * 1.1
          then 1000000 else 0)"

text \<open>
  Two flocks are on the same course when they have the same length and agree, biod by
  biod, on \<open>position\<close> and \<open>heading\<close>: what a phase's snapshot fixes.
\<close>

definition sameCourse :: "biod list \<Rightarrow> biod list \<Rightarrow> bool" where
  "sameCourse bs bs' \<longleftrightarrow>
     length bs = length bs'
     \<and> (\<forall>j < length bs. position (bs ! j) = position (bs' ! j)
                        \<and> heading (bs ! j) = heading (bs' ! j))"

section \<open>Bounds on \<open>\<pi>\<close>\<close>

text \<open>
  The conversion constants of \<open>Vector\<close> are decimal fractions, so what \<open>toDegrees\<close> and
  \<open>fromDegrees\<close> return depends on how they compare with \<open>\<pi>\<close>.  Machin's formula and the
  alternating series of \<open>arctan\<close> give \<open>\<pi>\<close> to nine places.
\<close>

lemma arctan_partial_sums:
  fixes x :: real
  assumes "0 \<le> x" "x \<le> 1"
  shows "(\<Sum>i<2*n. (-1)^i * (1 / real (i * 2 + 1) * x ^ (i * 2 + 1))) \<le> arctan x"
    and "arctan x \<le> (\<Sum>i<2*n+1. (-1)^i * (1 / real (i * 2 + 1) * x ^ (i * 2 + 1)))"
proof -
  let ?a = "\<lambda>n. 1 / real (n * 2 + 1) * x ^ (n * 2 + 1)"
  have ab: "\<bar>x\<bar> \<le> 1" using assms by simp
  have z: "?a \<longlonglongrightarrow> 0" by (rule zeroseq_arctan_series[OF ab])
  have p: "0 \<le> ?a n" for n using assms by simp
  have m: "?a (Suc n) \<le> ?a n" for n
  proof -
    have "x ^ (Suc n * 2 + 1) \<le> x ^ (n * 2 + 1)"
      using assms by (intro power_decreasing) auto
    moreover have "1 / real (Suc n * 2 + 1) \<le> 1 / real (n * 2 + 1)"
      by (intro divide_left_mono) auto
    ultimately show ?thesis
      using assms by (intro mult_mono) auto
  qed
  have s: "arctan x = (\<Sum>k. (-1)^k * ?a k)" by (rule arctan_series[OF ab])
  show "(\<Sum>i<2*n. (-1)^i * ?a i) \<le> arctan x"
    unfolding s by (rule summable_Leibniz'(2)[OF z p m])
  show "arctan x \<le> (\<Sum>i<2*n+1. (-1)^i * ?a i)"
    unfolding s by (rule summable_Leibniz'(4)[OF z p m])
qed

lemma pi_upper: "pi < 3.1415926537"
proof -
  have u: "arctan (1/5) \<le> (\<Sum>i<2*3+1. (-1)^i * (1 / real (i * 2 + 1) * (1/5) ^ (i * 2 + 1)))"
    by (rule arctan_partial_sums(2)) simp_all
  have l: "(\<Sum>i<2*1. (-1)^i * (1 / real (i * 2 + 1) * (1/239) ^ (i * 2 + 1))) \<le> arctan (1/239)"
    by (rule arctan_partial_sums(1)) simp_all
  have "pi = 16 * arctan (1/5) - 4 * arctan (1/239)"
    using machin by simp
  also have "\<dots> \<le> 16 * (\<Sum>i<2*3+1. (-1)^i * (1 / real (i * 2 + 1) * (1/5) ^ (i * 2 + 1)))
      - 4 * (\<Sum>i<2*1. (-1)^i * (1 / real (i * 2 + 1) * (1/239) ^ (i * 2 + 1)))"
    using u l by linarith
  also have "\<dots> < 3.1415926537"
    by (simp add: eval_nat_numeral)
  finally show ?thesis .
qed

lemma pi_lower: "3.1415926526 < pi"
proof -
  have u: "(\<Sum>i<2*3. (-1)^i * (1 / real (i * 2 + 1) * (1/5) ^ (i * 2 + 1))) \<le> arctan (1/5)"
    by (rule arctan_partial_sums(1)) simp_all
  have l: "arctan (1/239) \<le> (\<Sum>i<2*1+1. (-1)^i * (1 / real (i * 2 + 1) * (1/239) ^ (i * 2 + 1)))"
    by (rule arctan_partial_sums(2)) simp_all
  have "3.1415926526 < 16 * (\<Sum>i<2*3. (-1)^i * (1 / real (i * 2 + 1) * (1/5) ^ (i * 2 + 1)))
      - 4 * (\<Sum>i<2*1+1. (-1)^i * (1 / real (i * 2 + 1) * (1/239) ^ (i * 2 + 1)))"
    by (simp add: eval_nat_numeral)
  also have "\<dots> \<le> 16 * arctan (1/5) - 4 * arctan (1/239)"
    using u l by linarith
  also have "\<dots> = pi"
    using machin by simp
  finally show ?thesis .
qed

section \<open>Facts about vectors\<close>

lemma Vector_length_nonneg: "0 \<le> Vector_length v"
  by (simp add: Vector_length_def)

lemma Vector_length_eq_0_iff: "Vector_length v = 0 \<longleftrightarrow> v = Vector 0 0"
proof (cases v)
  case (Vector a b)
  have "a * a + b * b = 0 \<longleftrightarrow> a = 0 \<and> b = 0"
    by (metis add_nonneg_eq_0_iff mult_eq_0_iff zero_le_square)
  moreover have "0 \<le> a * a + b * b" by simp
  ultimately show ?thesis using Vector by (simp add: Vector_length_def)
qed

lemma Vector_length_Vector: "Vector_length (Vector a b) = sqrt (a\<^sup>2 + b\<^sup>2)"
  by (simp add: Vector_length_def power2_eq_square)

lemma Vector_length_div:
  assumes "0 < k"
  shows "Vector_length (Vector (a / k) (b / k)) = Vector_length (Vector a b) / k"
proof -
  have "(a / k)\<^sup>2 + (b / k)\<^sup>2 = (a\<^sup>2 + b\<^sup>2) / k\<^sup>2"
    by (simp add: power_divide add_divide_distrib)
  then show ?thesis using assms
    by (simp add: Vector_length_Vector real_sqrt_divide)
qed

lemma Vector_length_normalize:
  assumes "v \<noteq> Vector 0 0"
  shows "Vector_length (Vector_normalize v) = 1"
proof -
  have pos: "0 < Vector_length v"
    using assms Vector_length_nonneg[of v] Vector_length_eq_0_iff[of v] by linarith
  have "Vector_normalize v = Vector (vec_x v / Vector_length v) (vec_y v / Vector_length v)"
    using pos by (simp add: Vector_normalize_def Let_def)
  then show ?thesis using pos Vector_length_div[OF pos, of "vec_x v" "vec_y v"] by simp
qed

lemma Vector_normalize_zero: "Vector_normalize (Vector 0 0) = Vector 0 0"
  by (simp add: Vector_normalize_def Vector_length_def)

lemma Vector_normalize_div_unit:
  assumes "Vector_length u = 1" "0 < k"
  shows "Vector_normalize (Vector (vec_x u / k) (vec_y u / k)) = u"
proof -
  have l: "Vector_length (Vector (vec_x u / k) (vec_y u / k)) = 1 / k"
    using Vector_length_div[OF assms(2), of "vec_x u" "vec_y u"] assms(1) by simp
  then show ?thesis using assms(2)
    by (simp add: Vector_normalize_def Let_def)
qed

lemma Vector_getDistance_commute: "Vector_getDistance v w = Vector_getDistance w v"
  by (simp add: Vector_getDistance_def power2_commute)

lemma Vector_getDistance_nonneg: "0 \<le> Vector_getDistance v w"
  by (simp add: Vector_getDistance_def)

lemma Vector_length_difference:
  "Vector_length (Vector (vec_x w - vec_x v) (vec_y w - vec_y v)) = Vector_getDistance v w"
  by (simp add: Vector_length_def Vector_getDistance_def power2_eq_square)

lemma Vector_getDirectionTo_far:
  assumes "0 < Vector_getDistance v w"
  shows "Vector_getDirectionTo v w =
     Vector ((vec_x w - vec_x v) / Vector_getDistance v w)
            ((vec_y w - vec_y v) / Vector_getDistance v w)"
  using assms
  by (simp add: Vector_getDirectionTo_def Vector_normalize_def Let_def Vector_length_difference)

lemma Vector_getDirectionTo_same: "Vector_getDirectionTo v v = Vector 0 0"
  by (simp add: Vector_getDirectionTo_def Vector_normalize_zero)

lemma Vector_length_getDirectionTo:
  assumes "0 < Vector_getDistance v w"
  shows "Vector_length (Vector_getDirectionTo v w) = 1"
proof -
  have "Vector (vec_x w - vec_x v) (vec_y w - vec_y v) \<noteq> Vector 0 0"
    using assms Vector_length_difference[of w v] Vector_length_eq_0_iff by force
  then show ?thesis
    unfolding Vector_getDirectionTo_def by (rule Vector_length_normalize)
qed

lemma Vector_length_scale:
  "Vector_length (Vector_scale v k) = Vector_length v * \<bar>k\<bar>"
proof -
  have "vec_x v * k * (vec_x v * k) + vec_y v * k * (vec_y v * k)
      = (vec_x v * vec_x v + vec_y v * vec_y v) * k\<^sup>2"
    by (simp add: algebra_simps power2_eq_square)
  then show ?thesis
    by (simp add: Vector_length_def Vector_scale_def real_sqrt_mult)
qed

section \<open>Facts about \<open>%\<close> and angles\<close>

lemma js_mod_small: "0 \<le> a \<Longrightarrow> a < b \<Longrightarrow> js_mod a b = a"
  by (simp add: js_mod_def js_trunc_def floor_eq_iff)

lemma js_mod_once: 
  assumes "b \<le> a" "a < 2 * b" "0 < b"
  shows "js_mod a b = a - b"
proof -
  have "\<lfloor>a / b\<rfloor> = 1" using assms by (simp add: floor_eq_iff pos_le_divide_eq pos_divide_less_eq)
  moreover have "0 \<le> a / b" using assms by simp
  ultimately show ?thesis by (simp add: js_mod_def js_trunc_def)
qed

lemma js_mod_small_neg:
  assumes "- b < a" "a \<le> 0"
  shows "js_mod a b = a"
proof (cases "a = 0")
  case True
  then show ?thesis by (simp add: js_mod_def js_trunc_def)
next
  case False
  with assms have b: "0 < b" and a: "a < 0" by auto
  have "a / b < 0" using a b by (simp add: divide_neg_pos)
  moreover have "\<lceil>a / b\<rceil> = 0"
    using a b assms by (simp add: ceiling_eq_iff pos_less_divide_eq pos_divide_le_eq)
  ultimately show ?thesis by (simp add: js_mod_def js_trunc_def)
qed

lemma js_mod_range:
  assumes "0 \<le> a" "0 < b"
  shows "0 \<le> js_mod a b" "js_mod a b < b"
proof -
  have q: "0 \<le> a / b" using assms by simp
  have e: "b * (a / b) = a" using assms by simp
  have "b * of_int \<lfloor>a / b\<rfloor> \<le> b * (a / b)"
    using assms(2) by (intro mult_left_mono) auto
  then show "0 \<le> js_mod a b" using q e by (simp add: js_mod_def js_trunc_def)
  have "a / b < of_int \<lfloor>a / b\<rfloor> + 1" by linarith
  then have "b * (a / b) < b * (of_int \<lfloor>a / b\<rfloor> + 1)"
    using assms(2) by (intro mult_strict_left_mono) auto
  then show "js_mod a b < b" using q e by (simp add: js_mod_def js_trunc_def algebra_simps)
qed

lemma atan2_range: "- pi < atan2 b a" "atan2 b a \<le> pi"
proof -
  have l: "- (pi / 2) < arctan (b / a)" and u: "arctan (b / a) < pi / 2"
    by (rule arctan_lbound, rule arctan_ubound)
  have neg: "arctan (b / a) \<le> 0" if "a < 0" "0 \<le> b"
  proof -
    have "b / a \<le> 0" using that by (simp add: divide_nonneg_neg)
    then show ?thesis by (simp add: arctan_le_zero_iff)
  qed
  have pos: "0 < arctan (b / a)" if "a < 0" "b < 0"
  proof -
    have "0 < b / a" using that by (simp add: divide_neg_neg)
    then show ?thesis by (simp add: zero_less_arctan_iff)
  qed
  show "- pi < atan2 b a"
    using l u neg pos pi_gt_zero by (auto simp: atan2_def)
  show "atan2 b a \<le> pi"
    using l u neg pos pi_gt_zero by (auto simp: atan2_def)
qed

lemma Vector_toAngle_range: "0 \<le> Vector_toAngle v" "Vector_toAngle v < 2 * pi"
  using atan2_range[of "vec_y v" "vec_x v"] pi_gt_zero
  by (auto simp: Vector_toAngle_def Let_def)

lemma Vector_toDegrees_range: "0 \<le> Vector_toDegrees v" "Vector_toDegrees v < 360"
proof -
  show "0 \<le> Vector_toDegrees v"
    using Vector_toAngle_range(1)[of v] by (simp add: Vector_toDegrees_def radsToDegs_def)
  have "Vector_toAngle v * 57.2957795 < 2 * pi * 57.2957795"
    using Vector_toAngle_range(2)[of v] by simp
  also have "\<dots> < 360" using pi_upper by simp
  finally show "Vector_toDegrees v < 360"
    by (simp add: Vector_toDegrees_def radsToDegs_def)
qed

lemma js_mod_twice: 
  assumes "2 * b \<le> a" "a < 3 * b" "0 < b"
  shows "js_mod a b = a - 2 * b"
proof -
  have "\<lfloor>a / b\<rfloor> = 2" using assms by (simp add: floor_eq_iff pos_le_divide_eq pos_divide_less_eq)
  moreover have "0 \<le> a / b" using assms by simp
  ultimately show ?thesis by (simp add: js_mod_def js_trunc_def)
qed

lemma cos_one_pos: "0 < cos (1::real)"
  by (rule cos_gt_zero) (use pi_lower in simp_all)

lemma sqrt_25: "sqrt 25 = 5"
  by (rule real_sqrt_unique) simp_all

lemma sqrt_100: "sqrt 100 = 10"
  by (rule real_sqrt_unique) simp_all

lemma upt_2: "[0..<2] = [0, Suc 0]"
  by (simp add: upt_rec)

lemma cos_7_5_pos: "0 < cos (7 / 5 :: real)"
  by (rule cos_gt_zero) (use pi_lower in simp_all)

lemma sqrt_2500: "sqrt 2500 = 50"
  by (rule real_sqrt_unique) simp_all

lemma sqrt_40200: "sqrt (160801 / 4) = 401 / 2"
  by (rule real_sqrt_unique) (simp_all add: power2_eq_square)

lemma sqrt_245025: "sqrt 245025 = 495"
  by (rule real_sqrt_unique) simp_all

lemma sqrt_250000: "sqrt 250000 = 500"
  by (rule real_sqrt_unique) simp_all

lemma js_mod_range_neg:
  assumes "a \<le> 0" "0 < b"
  shows "- b < js_mod a b" "js_mod a b \<le> 0"
proof -
  have e: "b * (a / b) = a" using assms by simp
  show "js_mod a b \<le> 0"
  proof (cases "a = 0")
    case True
    then show ?thesis by (simp add: js_mod_def js_trunc_def)
  next
    case False
    then have q: "a / b < 0" using assms by (simp add: divide_neg_pos)
    have "b * (a / b) \<le> b * of_int \<lceil>a / b\<rceil>"
      using assms(2) by (intro mult_left_mono) auto
    then show ?thesis using q e by (simp add: js_mod_def js_trunc_def)
  qed
  show "- b < js_mod a b"
  proof (cases "a = 0")
    case True
    then show ?thesis using assms by (simp add: js_mod_def js_trunc_def)
  next
    case False
    then have q: "a / b < 0" using assms by (simp add: divide_neg_pos)
    have "of_int \<lceil>a / b\<rceil> < a / b + 1" by linarith
    then have "b * of_int \<lceil>a / b\<rceil> < b * (a / b + 1)"
      using assms(2) by (intro mult_strict_left_mono) auto
    then show ?thesis using q e by (simp add: js_mod_def js_trunc_def algebra_simps)
  qed
qed

text \<open>
  \<open>toAngle\<close> gives back the angle \<open>fromAngle\<close> was given; \<open>toDegrees\<close> after
  \<open>fromDegrees\<close> multiplies by the product of the two conversion constants, which is a
  little less than 1.
\<close>

lemma atan2_cos_sin:
  assumes "0 \<le> t" "t < 2 * pi"
  shows "atan2 (sin t) (cos t) = (if t \<le> pi then t else t - 2 * pi)"
proof -
  have q: "sin t / cos t = tan t" by (simp add: tan_def)
  consider "t < pi / 2" | "t = pi / 2" | "pi / 2 < t" "t \<le> pi" | "pi < t" "t < 3 * pi / 2"
    | "t = 3 * pi / 2" | "3 * pi / 2 < t"
    by linarith
  then show ?thesis
  proof cases
    case 1
    then have "0 < cos t" using assms by (intro cos_gt_zero_pi) auto
    moreover have "arctan (tan t) = t" using 1 assms by (intro arctan_tan) auto
    moreover have "t \<le> pi" using 1 pi_gt_zero by linarith
    ultimately show ?thesis by (simp add: atan2_def q)
  next
    case 2
    have "pi / 2 \<le> pi" using pi_gt_zero by linarith
    then show ?thesis unfolding 2 by (simp add: atan2_def)
  next
    case 3
    have "0 < cos (t - pi)" using 3 by (intro cos_gt_zero_pi) auto
    then have c: "cos t < 0" by simp
    have s: "0 \<le> sin t" using 3 assms by (intro sin_ge_zero) auto
    have "tan t = tan (t - pi)" using tan_periodic_pi[of "t - pi"] by simp
    moreover have "arctan (tan (t - pi)) = t - pi" using 3 by (intro arctan_tan) auto
    ultimately show ?thesis using c s 3 by (simp add: atan2_def q)
  next
    case 4
    have "0 < cos (t - pi)" using 4 by (intro cos_gt_zero_pi) auto
    then have c: "cos t < 0" by simp
    have s: "sin t < 0" using 4 assms by (intro sin_lt_zero) auto
    have "tan t = tan (t - pi)" using tan_periodic_pi[of "t - pi"] by simp
    moreover have "arctan (tan (t - pi)) = t - pi" using 4 by (intro arctan_tan) auto
    ultimately show ?thesis using c s 4 by (simp add: atan2_def q)
  next
    case 5
    have "cos (3 * pi / 2) = 0" "sin (3 * pi / 2) = - 1"
      using cos_periodic_pi[of "pi / 2"] sin_periodic_pi[of "pi / 2"] by (simp_all add: algebra_simps)
    moreover have "\<not> 3 * pi / 2 \<le> pi" using pi_gt_zero by linarith
    ultimately show ?thesis unfolding 5 by (simp add: atan2_def)
  next
    case 6
    have "0 < cos (t - 2 * pi)" using 6 assms by (intro cos_gt_zero_pi) auto
    moreover have "cos (t - 2 * pi) = cos t" using cos_periodic[of "t - 2 * pi"] by simp
    ultimately have c: "0 < cos t" by simp
    have "tan t = tan (t - 2 * pi)" using tan_periodic[of "t - 2 * pi"] by simp
    moreover have "arctan (tan (t - 2 * pi)) = t - 2 * pi"
      using 6 assms by (intro arctan_tan) auto
    moreover have "\<not> t \<le> pi" using 6 pi_gt_zero by linarith
    ultimately show ?thesis using c by (simp add: atan2_def q)
  qed
qed

lemma Vector_toAngle_fromAngle:
  assumes "0 \<le> t" "t < 2 * pi"
  shows "Vector_toAngle (Vector_fromAngle t) = t"
  using atan2_cos_sin[OF assms] assms pi_gt_zero
  by (auto simp: Vector_toAngle_def Vector_fromAngle_def Let_def)

lemma Vector_toDegrees_fromDegrees:
  assumes "0 \<le> a" "a < 360"
  shows "Vector_toDegrees (Vector_fromDegrees a) = a * degsToRads * radsToDegs"
proof -
  have "a * degsToRads < 2 * pi"
    using assms pi_lower by (simp add: degsToRads_def)
  moreover have "0 \<le> a * degsToRads" using assms by (simp add: degsToRads_def)
  ultimately show ?thesis
    by (simp add: Vector_toDegrees_def Vector_fromDegrees_def Vector_toAngle_fromAngle)
qed

lemma read_back_error:
  assumes "0 \<le> a" "a < 360"
  shows "Vector_toDegrees (Vector_fromDegrees a) \<le> a"
    and "a - 1 / 2000000 \<le> Vector_toDegrees (Vector_fromDegrees a)"
  using assms unfolding Vector_toDegrees_fromDegrees[OF assms]
  by (simp_all add: degsToRads_def radsToDegs_def)

lemma cos_9_5_neg: "cos (9 / 5 :: real) < 0"
proof -
  have "0 < cos (9 / 5 - pi)"
    by (rule cos_gt_zero_pi) (use pi_lower pi_upper in simp_all)
  then show ?thesis by simp
qed

section \<open>Predation\<close>

lemma isDead_iff:
  "isDead b ps \<longleftrightarrow> (\<exists>p \<in> set ps. Vector_getDistance (position b) (position p) < max (radius b) (radius p))"
  by (simp add: isDead_def list_ex_iff)


lemma killLoop_from:
  "i \<le> length biods \<Longrightarrow> killLoop i biods ps =
     take i biods @ takeWhile (\<lambda>b. \<not> isDead b ps) (drop i biods)
       @ drop 1 (dropWhile (\<lambda>b. \<not> isDead b ps) (drop i biods))"
proof (induction i biods ps rule: killLoop.induct)
  case (1 i biods ps)
  show ?case
  proof (cases "i < length biods")
    case False
    with 1 show ?thesis by (subst killLoop.simps) simp
  next
    case lt: True
    then have d: "drop i biods = biods ! i # drop (Suc i) biods"
      by (simp add: Cons_nth_drop_Suc)
    show ?thesis
    proof (cases "isDead (biods ! i) ps")
      case True
      with lt d show ?thesis by (subst killLoop.simps) simp
    next
      case False
      with lt have "killLoop i biods ps = killLoop (Suc i) biods ps"
        by (subst killLoop.simps) simp
      also have "\<dots> = take (Suc i) biods @ takeWhile (\<lambda>b. \<not> isDead b ps) (drop (Suc i) biods)
       @ drop 1 (dropWhile (\<lambda>b. \<not> isDead b ps) (drop (Suc i) biods))"
        using 1 lt False by simp
      finally show ?thesis using d False lt by (simp add: take_Suc_conv_app_nth)
    qed
  qed
qed

lemma length_remove_first:
  "length (takeWhile P xs @ drop 1 (dropWhile P xs)) = (if \<exists>x\<in>set xs. \<not> P x then length xs - 1 else length xs)"
proof (induction xs)
  case Nil
  then show ?case by simp
next
  case (Cons a xs)
  have "x \<in> set xs \<Longrightarrow> 0 < length xs" for x by (cases xs) auto
  with Cons show ?case by (auto simp: Suc_diff_Suc)
qed

lemma length_Emitter_update: "length (Emitter_update e biods) = length biods"
  by (simp add: Emitter_update_def)

lemma length_movePredators: "length (snd (movePredators phs biods)) = length biods"
  by (induction phs biods rule: movePredators.induct)
     (auto simp: Predator_move_def Let_def length_Emitter_update split: prod.splits)


lemma length_headingLoop:
  "length (snd (headingLoop i biods hs)) = length biods"
proof (induction i biods hs rule: headingLoop.induct)
  case (1 i biods hs)
  show ?case
  proof (cases "i < length biods")
    case True
    then show ?thesis using 1 by (subst headingLoop.simps) simp
  next
    case False
    then show ?thesis by (subst headingLoop.simps) simp
  qed
qed

lemma length_fst_headingLoop:
  "i \<le> length biods \<Longrightarrow> length (fst (headingLoop i biods hs)) = length hs + (length biods - i)"
proof (induction i biods hs rule: headingLoop.induct)
  case (1 i biods hs)
  show ?case
  proof (cases "i < length biods")
    case True
    then show ?thesis using 1 by (subst headingLoop.simps) simp
  next
    case False
    then show ?thesis using 1 by (subst headingLoop.simps) simp
  qed
qed

lemma length_updateBiods: "length (updateBiods biods) = length biods"
proof -
  obtain hs bs where r: "headingLoop 0 biods [] = (hs, bs)" by (cases "headingLoop 0 biods []")
  from r length_headingLoop[of 0 biods "[]"] length_fst_headingLoop[of 0 biods "[]"]
  have "length hs = length biods" "length bs = length biods" by simp_all
  with r show ?thesis by (simp add: updateBiods_def)
qed

lemma length_foldl_Emitter_update:
  "length (foldl (\<lambda>biods e. Emitter_update e biods) biods es) = length biods"
  by (induction es arbitrary: biods) (simp_all add: length_Emitter_update)

lemma length_updatePredators: "length (snd (updatePredators ps biods)) = length biods"
  by (simp add: updatePredators_def length_movePredators)

lemma length_Flock_update:
  "length (flock (Flock_update this m d s)) = length (killLoop 0 (flock this) (predators this))"
proof -
  let ?b1 = "killLoop 0 (flock this) (predators this)"
  let ?b2 = "foldl (\<lambda>biods e. Emitter_update e biods) ?b1 (emitters this)"
  let ?b3 = "(case m of Some e \<Rightarrow> if d then Emitter_update (e\<lparr>repel := s\<rparr>) ?b2 else ?b2
                    | None \<Rightarrow> ?b2)"
  have 3: "length ?b3 = length ?b1"
    by (simp add: length_foldl_Emitter_update length_Emitter_update split: option.splits)
  have "flock (Flock_update this m d s) = updateBiods (snd (updatePredators (predators this) ?b3))"
    by (simp add: Flock_update_def Let_def split: prod.splits)
  then show ?thesis
    by (simp only: length_updateBiods length_updatePredators 3)
qed

text \<open>
  C6.  In the first phase of a tick a biod is dead exactly when some predator is closer to
  it than the larger of the two radii.  The scan takes out the first dead biod in flock
  order and stops: the flock after the scan is the flock without that one biod, so a tick
  removes one biod when some biod is dead and none otherwise, and no later phase changes
  the number of biods.  With one predator at \<open>(0,0)\<close> of radius 10 and one biod at
  \<open>(5,0)\<close> of radius 7 the biod is removed.
\<close>

theorem predation_resolution:
  "(isDead b ps \<longleftrightarrow> (\<exists>p \<in> set ps. Vector_getDistance (position b) (position p) < max (radius b) (radius p)))
   \<and> killLoop 0 biods ps =
       takeWhile (\<lambda>b. \<not> isDead b ps) biods @ drop 1 (dropWhile (\<lambda>b. \<not> isDead b ps) biods)
   \<and> length (killLoop 0 biods ps) =
       (if \<exists>b \<in> set biods. isDead b ps then length biods - 1 else length biods)
   \<and> length (flock (Flock_update this m d s)) =
       (if \<exists>b \<in> set (flock this). isDead b (predators this)
        then length (flock this) - 1 else length (flock this))"
proof -
  have k: "killLoop 0 xs qs =
       takeWhile (\<lambda>b. \<not> isDead b qs) xs @ drop 1 (dropWhile (\<lambda>b. \<not> isDead b qs) xs)" for xs qs
    using killLoop_from[of 0 xs qs] by simp
  have l: "length (killLoop 0 xs qs) =
       (if \<exists>b \<in> set xs. isDead b qs then length xs - 1 else length xs)" for xs qs
    unfolding k using length_remove_first[of "\<lambda>b. \<not> isDead b qs" xs] by simp
  show ?thesis
    using k[of biods ps] l[of biods ps] l[of "flock this" "predators this"]
    by (simp add: isDead_iff length_Flock_update)
qed


theorem predation_resolution_witness:
  "length (flock (Flock_update
       \<lparr>flock = [Biod (Vector 5 0) 3 10 7 40 200 20 (Vector 800 600)], emitters = [],
        predators = [Predator (Vector 0 0) 10 12 10 200 40000 200 (Vector 800 600)]\<rparr>
       None False False)) = 0
   \<and> killLoop 0 [Biod (Vector 5 0) 3 10 7 40 200 20 (Vector 800 600)]
      [Predator (Vector 0 0) 10 12 10 200 40000 200 (Vector 800 600)] = []
   \<and> length (killLoop 0 [Biod (Vector 5 0) 3 10 7 40 200 20 (Vector 800 600)]
      [Predator (Vector 0 0) 10 12 10 200 40000 200 (Vector 800 600)])
     = length [Biod (Vector 5 0) 3 10 7 40 200 20 (Vector 800 600)] - 1"
  using predation_resolution [of "Biod (Vector 5 0) 3 10 7 40 200 20 (Vector 800 600)"
      "[Predator (Vector 0 0) 10 12 10 200 40000 200 (Vector 800 600)]"
      "[Biod (Vector 5 0) 3 10 7 40 200 20 (Vector 800 600)]"
      "\<lparr>flock = [Biod (Vector 5 0) 3 10 7 40 200 20 (Vector 800 600)], emitters = [],
        predators = [Predator (Vector 0 0) 10 12 10 200 40000 200 (Vector 800 600)]\<rparr>"
      None False False]
  by (simp add: Biod_def Predator_def Vector_getDistance_def)

section \<open>A biod on its own\<close>

lemma crowdLoop_no_neighbors:
  "Biod_neighbors self biods = [] \<Longrightarrow> crowdLoop self biods = (Vector 0 0, 0, Vector 0 0, Vector 0 0)"
  by (simp add: crowdLoop_def)

text \<open>
  C10.  A biod that sees no neighbour, has an empty \<open>emitterInfluences\<close> and is not at the
  origin gets from \<open>calculateNewHeading\<close> the unit vector that points from its position to
  the point \<open>(0,0)\<close>: the sum of neighbour positions is still the zero vector, and
  \<open>getDirectionTo\<close> takes it for a point.
\<close>

theorem isolated_biod_heads_for_origin:
  assumes "self < length biods"
    and "Biod_neighbors self biods = []"
    and "emitterInfluences (biods ! self) = []"
    and "position (biods ! self) \<noteq> Vector 0 0"
  shows "fst (Biod_calculateNewHeading self biods)
           = Vector_getDirectionTo (position (biods ! self)) (Vector 0 0)
       \<and> Vector_length (fst (Biod_calculateNewHeading self biods)) = 1
       \<and> fst (Biod_calculateNewHeading self biods)
           = Vector (- vec_x (position (biods ! self)) / Vector_length (position (biods ! self)))
                    (- vec_y (position (biods ! self)) / Vector_length (position (biods ! self)))"
proof -
  let ?p = "position (biods ! self)"
  let ?d = "Vector_getDirectionTo ?p (Vector 0 0)"
  have nz: "Vector (0 - vec_x ?p) (0 - vec_y ?p) \<noteq> Vector 0 0"
    using assms(4) by (cases ?p) auto
  have unit: "Vector_length ?d = 1"
    unfolding Vector_getDirectionTo_def vector.sel by (rule Vector_length_normalize[OF nz])
  have cl: "Biod_claustrophobia self biods = Vector 0 0"
    by (simp add: Biod_claustrophobia_def crowdLoop_no_neighbors[OF assms(2)] averageBy_def)
  have ah: "Biod_avgHeading self biods = Vector 0 0"
    by (simp add: Biod_avgHeading_def crowdLoop_no_neighbors[OF assms(2)] Vector_normalize_zero)
  have ap: "Biod_avgPosition self biods = ?d"
    by (simp add: Biod_avgPosition_def crowdLoop_no_neighbors[OF assms(2)] averageBy_def assms(2))
  have es: "Biod_emitterSum (biods ! self) = Vector 0 0"
    by (simp add: Biod_emitterSum_def assms(3))
  have "Biod_forceSum self biods = ?d"
    by (simp add: Biod_forceSum_def cl ah ap es Vector_add_def)
  then have "Biod_combined self biods = Vector (vec_x ?d / 3) (vec_y ?d / 3)"
    by (simp add: Biod_combined_def assms(3) Let_def)
  then have r: "fst (Biod_calculateNewHeading self biods) = ?d"
    using Vector_normalize_div_unit[OF unit, of 3] by (simp add: Biod_calculateNewHeading_def)
  have len: "Vector_length (Vector (- vec_x ?p) (- vec_y ?p)) = Vector_length ?p"
    by (simp add: Vector_length_def)
  have "Vector_length ?p \<noteq> 0" using assms(4) Vector_length_eq_0_iff by blast
  then have "?d = Vector (- vec_x ?p / Vector_length ?p) (- vec_y ?p / Vector_length ?p)"
    by (simp add: Vector_getDirectionTo_def Vector_normalize_def Let_def len)
  with r unit show ?thesis by simp
qed


theorem isolated_biod_heads_for_origin_witness:
  "0 < length [Biod (Vector 3 4) 3 10 7 40 200 20 (Vector 800 600)]
   \<and> Biod_neighbors 0 [Biod (Vector 3 4) 3 10 7 40 200 20 (Vector 800 600)] = []
   \<and> emitterInfluences ([Biod (Vector 3 4) 3 10 7 40 200 20 (Vector 800 600)] ! 0) = []
   \<and> position ([Biod (Vector 3 4) 3 10 7 40 200 20 (Vector 800 600)] ! 0) \<noteq> Vector 0 0
   \<and> fst (Biod_calculateNewHeading 0 [Biod (Vector 3 4) 3 10 7 40 200 20 (Vector 800 600)])
       = Vector (- 3 / 5) (- 4 / 5)"
proof -
  let ?bs = "[Biod (Vector 3 4) 3 10 7 40 200 20 (Vector 800 600)]"
  have 1: "0 < length ?bs" by simp
  have 2: "Biod_neighbors 0 ?bs = []" by (simp add: Biod_neighbors_def)
  have 3: "emitterInfluences (?bs ! 0) = []" by (simp add: Biod_def)
  have 4: "position (?bs ! 0) \<noteq> Vector 0 0" by (simp add: Biod_def)
  have "sqrt 25 = (5::real)" by (rule real_sqrt_unique) simp_all
  then have 5: "Vector_length (position (?bs ! 0)) = 5"
    by (simp add: Biod_def Vector_length_def)
  have 6: "position (?bs ! 0) = Vector 3 4" by (simp add: Biod_def)
  have "fst (Biod_calculateNewHeading 0 ?bs) = Vector (- 3 / 5) (- 4 / 5)"
    using isolated_biod_heads_for_origin [OF 1 2 3 4, THEN conjunct2, THEN conjunct2]
    unfolding 5 unfolding 6 by simp
  with 1 2 3 4 show ?thesis by blast
qed

section \<open>Emitters\<close>

lemma influenceStrength_eq:
  "influenceStrength e d = max 0 (strength e - subAmount e d)"
  by (simp add: influenceStrength_def Let_def max_def)

lemma subAmount_falloffAmount:
  assumes "0 < d" "falloff_of (functionType e) = Some k"
  shows "subAmount e d = falloffAmount k (strength e) d"
  using assms by (auto simp: subAmount_def falloff_of_def power2_eq_square split: if_splits)

lemma Emitter_update_nth:
  assumes "i < length biods"
  shows "Emitter_update e biods ! i =
     (if Vector_getDistance (position (biods ! i)) (position e) \<le> radius e
      then (biods ! i)\<lparr>emitterInfluences :=
              emitterInfluences (biods ! i) @ [Emitter_influence e (biods ! i)]\<rparr>
      else biods ! i)"
  using assms by (simp add: Emitter_update_def)

lemma Emitter_influence_length:
  assumes "0 < Vector_getDistance (position b) (position e)"
  shows "Vector_length (Emitter_influence e b)
       = influenceStrength e (Vector_getDistance (position b) (position e))"
proof -
  have "0 \<le> influenceStrength e (Vector_getDistance (position b) (position e))"
    by (simp add: influenceStrength_eq)
  then show ?thesis
    using assms Vector_length_getDirectionTo[of "position b" "position e"]
      Vector_length_getDirectionTo[of "position e" "position b"]
    by (simp add: Emitter_influence_def Let_def Vector_length_scale
        Vector_getDistance_commute[of "position e" "position b"])
qed

text \<open>
  C8 fails as stated: a biod exactly at the emitter's position is within the radius and gets
  a contribution, but \<open>getDirectionTo\<close> of a point to itself is the zero vector, so the
  contribution has magnitude 0 and not \<open>max(0, strength - falloffAmount)\<close>.
\<close>

theorem emitter_contribution_counterexample:
  "Vector_getDistance (position (Biod (Vector 100 100) 3 10 7 40 200 20 (Vector 800 600)))
       (position (Emitter (Vector 100 100) 50 30 ''linear'' True))
     \<le> radius (Emitter (Vector 100 100) 50 30 ''linear'' True)
   \<and> Emitter_update (Emitter (Vector 100 100) 50 30 ''linear'' True)
         [Biod (Vector 100 100) 3 10 7 40 200 20 (Vector 800 600)]
       = [(Biod (Vector 100 100) 3 10 7 40 200 20 (Vector 800 600))
           \<lparr>emitterInfluences := [Vector 0 0]\<rparr>]
   \<and> Vector_length (Vector 0 0)
       \<noteq> max 0 (strength (Emitter (Vector 100 100) 50 30 ''linear'' True)
            - falloffAmount Linear (strength (Emitter (Vector 100 100) 50 30 ''linear'' True))
                (Vector_getDistance
                   (position (Biod (Vector 100 100) 3 10 7 40 200 20 (Vector 800 600)))
                   (position (Emitter (Vector 100 100) 50 30 ''linear'' True))))"
  by (simp add: Emitter_update_def Emitter_influence_def Vector_getDistance_def Biod_def
      Emitter_def Vector_getDirectionTo_same Vector_scale_def Vector_length_def)

text \<open>
  C8, amended.  \<open>Emitter.update\<close> leaves every biod farther than the radius as it is and
  appends exactly one contribution to the \<open>emitterInfluences\<close> of every biod within the
  radius.  For a biod that is not at the emitter's position the contribution has magnitude
  \<open>max(0, strength - falloffAmount)\<close> and is that magnitude times the unit vector from the
  biod to the emitter (attractive) or from the emitter to the biod (repulsive); for a biod
  at the emitter's position it is the zero vector.  A repulsive Linear emitter at
  \<open>(100,100)\<close> with strength 50 and radius 30 gives a biod at \<open>(110,100)\<close> the
  contribution \<open>(40, 0)\<close>.
\<close>

theorem emitter_contribution:
  assumes "i < length biods"
  shows "length (Emitter_update e biods) = length biods
    \<and> (radius e < Vector_getDistance (position (biods ! i)) (position e)
         \<longrightarrow> Emitter_update e biods ! i = biods ! i)
    \<and> (Vector_getDistance (position (biods ! i)) (position e) \<le> radius e
         \<longrightarrow> Emitter_update e biods ! i = (biods ! i)\<lparr>emitterInfluences :=
                emitterInfluences (biods ! i) @ [Emitter_influence e (biods ! i)]\<rparr>)
    \<and> (0 < Vector_getDistance (position (biods ! i)) (position e)
         \<and> falloff_of (functionType e) = Some k
         \<longrightarrow> Vector_length (Emitter_influence e (biods ! i))
               = max 0 (strength e - falloffAmount k (strength e)
                   (Vector_getDistance (position (biods ! i)) (position e)))
             \<and> Emitter_influence e (biods ! i)
               = Vector_scale
                   (if repel e
                    then Vector ((vec_x (position (biods ! i)) - vec_x (position e))
                                  / Vector_getDistance (position (biods ! i)) (position e))
                                ((vec_y (position (biods ! i)) - vec_y (position e))
                                  / Vector_getDistance (position (biods ! i)) (position e))
                    else Vector ((vec_x (position e) - vec_x (position (biods ! i)))
                                  / Vector_getDistance (position (biods ! i)) (position e))
                                ((vec_y (position e) - vec_y (position (biods ! i)))
                                  / Vector_getDistance (position (biods ! i)) (position e)))
                   (max 0 (strength e - falloffAmount k (strength e)
                      (Vector_getDistance (position (biods ! i)) (position e)))))
    \<and> (position (biods ! i) = position e \<longrightarrow> Emitter_influence e (biods ! i) = Vector 0 0)"
proof -
  let ?b = "biods ! i"
  let ?d = "Vector_getDistance (position ?b) (position e)"
  have 1: "length (Emitter_update e biods) = length biods"
    by (simp add: Emitter_update_def)
  have 2: "radius e < ?d \<longrightarrow> Emitter_update e biods ! i = ?b"
    by (simp add: Emitter_update_nth[OF assms])
  have 3: "?d \<le> radius e \<longrightarrow> Emitter_update e biods ! i
      = ?b\<lparr>emitterInfluences := emitterInfluences ?b @ [Emitter_influence e ?b]\<rparr>"
    by (simp add: Emitter_update_nth[OF assms])
  have 4: "Vector_length (Emitter_influence e ?b)
             = max 0 (strength e - falloffAmount k (strength e) ?d)"
    if "0 < ?d" "falloff_of (functionType e) = Some k"
    using that Emitter_influence_length[OF that(1)] subAmount_falloffAmount[OF that]
    by (simp add: influenceStrength_eq)
  have 5: "Emitter_influence e ?b = Vector_scale
                   (if repel e
                    then Vector ((vec_x (position ?b) - vec_x (position e)) / ?d)
                                ((vec_y (position ?b) - vec_y (position e)) / ?d)
                    else Vector ((vec_x (position e) - vec_x (position ?b)) / ?d)
                                ((vec_y (position e) - vec_y (position ?b)) / ?d))
                   (max 0 (strength e - falloffAmount k (strength e) ?d))"
    if "0 < ?d" "falloff_of (functionType e) = Some k"
  proof -
    have d': "0 < Vector_getDistance (position e) (position ?b)"
      using that(1) by (simp add: Vector_getDistance_commute)
    show ?thesis
      using Vector_getDirectionTo_far[OF that(1)] Vector_getDirectionTo_far[OF d']
        subAmount_falloffAmount[OF that]
      by (simp add: Emitter_influence_def Let_def influenceStrength_eq
          Vector_getDistance_commute[of "position e" "position ?b"])
  qed
  have 6: "position ?b = position e \<longrightarrow> Emitter_influence e ?b = Vector 0 0"
    by (simp add: Emitter_influence_def Let_def Vector_getDirectionTo_same Vector_scale_def)
  from 1 2 3 4 5 6 show ?thesis by blast
qed

theorem emitter_contribution_witness:
  "0 < length [Biod (Vector 110 100) 3 10 7 40 200 20 (Vector 800 600)]
   \<and> Emitter_update (Emitter (Vector 100 100) 50 30 ''linear'' True)
         [Biod (Vector 110 100) 3 10 7 40 200 20 (Vector 800 600)] ! 0
       = (Biod (Vector 110 100) 3 10 7 40 200 20 (Vector 800 600))
           \<lparr>emitterInfluences := [Vector 40 0]\<rparr>
   \<and> Vector_length (Emitter_influence (Emitter (Vector 100 100) 50 30 ''linear'' True)
         (Biod (Vector 110 100) 3 10 7 40 200 20 (Vector 800 600))) = 40"
proof -
  let ?b = "Biod (Vector 110 100) 3 10 7 40 200 20 (Vector 800 600)"
  let ?e = "Emitter (Vector 100 100) 50 30 ''linear'' True"
  have 0: "0 < length [?b]" by simp
  have d: "Vector_getDistance (position ([?b] ! 0)) (position ?e) = 10"
    by (simp add: Vector_getDistance_def Biod_def Emitter_def)
  have k: "falloff_of (functionType ?e) = Some Linear"
    by (simp add: falloff_of_def Emitter_def)
  have f: "repel ?e" "strength ?e = 50" "radius ?e = 30" "position ?e = Vector 100 100"
    "position ?b = Vector 110 100" "emitterInfluences ?b = []"
    by (simp_all add: Emitter_def Biod_def)
  note t = emitter_contribution [OF 0, of ?e Linear]
  have C: "Emitter_update ?e [?b] ! 0
      = ?b\<lparr>emitterInfluences := [Emitter_influence ?e ?b]\<rparr>"
    using t d by (simp add: f)
  have pre: "0 < Vector_getDistance (position ([?b] ! 0)) (position ?e)
      \<and> falloff_of (functionType ?e) = Some Linear"
    using d k by simp
  from t pre have "Vector_length (Emitter_influence ?e ([?b] ! 0))
      = max 0 (strength ?e - falloffAmount Linear (strength ?e)
          (Vector_getDistance (position ([?b] ! 0)) (position ?e)))"
    by blast
  then have L: "Vector_length (Emitter_influence ?e ?b) = 40"
    unfolding d by (simp add: f)
  have V: "Emitter_influence ?e ?b = Vector 40 0"
    using t k d by (simp add: f Vector_scale_def)
  from C V have "Emitter_update ?e [?b] ! 0 = ?b\<lparr>emitterInfluences := [Vector 40 0]\<rparr>"
    by simp
  with 0 L show ?thesis by blast
qed

section \<open>Turning\<close>

lemma arcs:
  assumes "0 \<le> c" "c < 360" "0 \<le> n" "n < 360"
  shows "js_mod (n - c + 360) 360 = (if n < c then n - c + 360 else n - c)"
    and "js_mod (c - n + 360) 360 = (if c < n then c - n + 360 else c - n)"
  using assms js_mod_small[of "n - c + 360" 360] js_mod_once[of 360 "n - c + 360"]
    js_mod_small[of "c - n + 360" 360] js_mod_once[of 360 "c - n + 360"]
  by auto

lemma turnedAngle_cases:
  assumes "0 \<le> ts" "0 \<le> c" "c < 360" "0 \<le> n" "n < 360"
  shows "0 \<le> turnedAngle ts c n \<and> turnedAngle ts c n < 360
       \<and> angularDifference c (turnedAngle ts c n) \<le> ts
       \<and> turnsTowards ts c n (turnedAngle ts c n)"
proof -
  let ?l = "js_mod (n - c + 360) 360" and ?r = "js_mod (c - n + 360) 360"
  let ?rot = "rotationAmount ts c n"
  note a = arcs[OF assms(2-5)]
  have rot: "?rot = (if ?l < ?r then min ts ?l else - min ts ?r)"
    by (simp add: rotationAmount_def Let_def)
  have lo: "0 \<le> c + ?rot + 360" and hi: "c + ?rot + 360 < 1080"
    using assms unfolding rot a by (auto simp: min_def split: if_splits)
  have rng: "0 \<le> turnedAngle ts c n" "turnedAngle ts c n < 360"
    unfolding turnedAngle_def using js_mod_range[OF lo, of 360] by simp_all
  have val: "turnedAngle ts c n = c + ?rot + 360 \<or> turnedAngle ts c n = c + ?rot
      \<or> turnedAngle ts c n = c + ?rot - 360"
  proof -
    consider "c + ?rot + 360 < 360" | "360 \<le> c + ?rot + 360" "c + ?rot + 360 < 720"
      | "720 \<le> c + ?rot + 360" by linarith
    then show ?thesis
    proof cases
      case 1
      then show ?thesis unfolding turnedAngle_def using js_mod_small[OF lo, of 360] by simp
    next
      case 2
      then show ?thesis unfolding turnedAngle_def
        using js_mod_once[of 360 "c + ?rot + 360"] by simp
    next
      case 3
      then show ?thesis unfolding turnedAngle_def
        using js_mod_twice[of 360 "c + ?rot + 360"] hi by simp
    qed
  qed
  have lr: "0 \<le> ?l" "0 \<le> ?r" "?l < ?r \<longrightarrow> ?l < 180" "\<not> ?l < ?r \<longrightarrow> ?r \<le> 180"
    using assms unfolding a by (auto split: if_splits)
  have bound: "\<bar>?rot\<bar> \<le> ts" "\<bar>?rot\<bar> \<le> 180"
    using assms lr unfolding rot by (auto simp: min_def split: if_splits)
  have diff: "angularDifference c (turnedAngle ts c n) \<le> ts"
    using val bound rng assms by (auto simp: angularDifference_def min_def abs_if split: if_splits)
  have dir: "turnsTowards ts c n (turnedAngle ts c n)"
  proof (cases "?l < ?r")
    case True
    then have r: "?rot = min ts ?l" "0 \<le> ?rot" using rot lr assms by auto
    have "turnedAngle ts c n \<noteq> c + ?rot + 360" using r rng assms by linarith
    with val True show ?thesis unfolding turnsTowards_def Let_def r(1) by auto
  next
    case False
    then have r: "?rot = - min ts ?r" "?rot \<le> 0" using rot lr assms by auto
    have "turnedAngle ts c n \<noteq> c + ?rot - 360" using r rng assms by linarith
    with val False show ?thesis unfolding turnsTowards_def Let_def r(1) by auto
  qed
  from rng diff dir show ?thesis by blast
qed


lemma heading_Biod_move:
  "heading (Biod_move b nh) = Vector_fromDegrees
     (turnedAngle (turnSpeed b) (Vector_toDegrees (heading b)) (Vector_toDegrees nh))"
  by (simp add: Biod_move_def Let_def)

lemma heading_Predator_move:
  "heading (fst (Predator_move p nh biods)) = Vector_fromDegrees
     (turnedAngle (turnSpeed p) (Vector_toDegrees (heading p)) (Vector_toDegrees nh))"
  by (simp add: Predator_move_def Let_def)

lemma Vector_toDegrees_east: "Vector_toDegrees (Vector 1 0) = 0"
  by (simp add: Vector_toDegrees_def Vector_toAngle_def atan2_def)

lemma Vector_toDegrees_south: "Vector_toDegrees (Vector 0 (- 1)) = 3 * pi / 2 * radsToDegs"
  by (simp add: Vector_toDegrees_def Vector_toAngle_def atan2_def Let_def)

lemma south_range: "180 \<le> 3 * pi / 2 * radsToDegs" "3 * pi / 2 * radsToDegs \<le> 340"
  using pi_lower pi_upper by (simp_all add: radsToDegs_def)

lemma turnedAngle_from_east:
  assumes "180 \<le> n" "n < 360" "0 < ts" "ts \<le> 360 - n"
  shows "turnedAngle ts 0 n = 360 - ts"
proof -
  have l: "js_mod (n + 360) 360 = n" using assms js_mod_once[of 360 "n + 360"] by simp
  have r: "js_mod (360 - n) 360 = 360 - n" using assms js_mod_small[of "360 - n" 360] by simp
  have "rotationAmount ts 0 n = - ts"
    using assms by (simp add: rotationAmount_def Let_def l r)
  then show ?thesis
    using assms js_mod_small[of "360 - ts" 360] by (simp add: turnedAngle_def)
qed

lemma turnedAngle_south:
  assumes "0 < ts" "ts \<le> 20"
  shows "turnedAngle ts 0 (Vector_toDegrees (Vector 0 (- 1))) = 360 - ts"
  unfolding Vector_toDegrees_south
  by (rule turnedAngle_from_east) (use assms south_range in linarith)+

text \<open>
  Read back through \<open>toDegrees\<close>, a heading set by \<open>fromDegrees\<close> shows the angle it was
  set from times \<open>degsToRads * radsToDegs\<close>, a little less than that angle.
\<close>

lemma angularDifference_near:
  assumes "\<bar>a - a'\<bar> \<le> e"
  shows "angularDifference c a' \<le> angularDifference c a + e"
  using assms by (auto simp: angularDifference_def min_def abs_if split: if_splits)

lemma measured_turn:
  assumes "0 \<le> ts" "0 \<le> c" "c < 360" "0 \<le> n" "n < 360"
  shows "angularDifference c (Vector_toDegrees (Vector_fromDegrees (turnedAngle ts c n)))
       \<le> ts + 1 / 2000000"
proof -
  let ?a = "turnedAngle ts c n"
  note t = turnedAngle_cases[OF assms]
  then have r: "0 \<le> ?a" "?a < 360" by simp_all
  have "\<bar>?a - Vector_toDegrees (Vector_fromDegrees ?a)\<bar> \<le> 1 / 2000000"
    using read_back_error[OF r] by linarith
  from angularDifference_near[OF this, of c] t show ?thesis by linarith
qed

lemma measured_turn_Biod_move:
  assumes "0 \<le> turnSpeed b"
  shows "angularDifference (Vector_toDegrees (heading b))
           (Vector_toDegrees (heading (Biod_move b nh))) \<le> turnSpeed b + 1 / 2000000"
  unfolding heading_Biod_move
  by (rule measured_turn[OF assms Vector_toDegrees_range Vector_toDegrees_range])

lemma measured_turn_Predator_move:
  assumes "0 \<le> turnSpeed p"
  shows "angularDifference (Vector_toDegrees (heading p))
           (Vector_toDegrees (heading (fst (Predator_move p nh biods))))
         \<le> turnSpeed p + 1 / 2000000"
  unfolding heading_Predator_move
  by (rule measured_turn[OF assms Vector_toDegrees_range Vector_toDegrees_range])

lemma read_back_turnedAngle:
  assumes "0 \<le> ts"
  shows "Vector_toDegrees (Vector_fromDegrees
           (turnedAngle ts (Vector_toDegrees h) (Vector_toDegrees nh)))
       = turnedAngle ts (Vector_toDegrees h) (Vector_toDegrees nh) * degsToRads * radsToDegs"
proof -
  note t = turnedAngle_cases[OF assms Vector_toDegrees_range Vector_toDegrees_range, of h nh]
  then have "0 \<le> turnedAngle ts (Vector_toDegrees h) (Vector_toDegrees nh)"
    "turnedAngle ts (Vector_toDegrees h) (Vector_toDegrees nh) < 360" by simp_all
  then show ?thesis by (rule Vector_toDegrees_fromDegrees)
qed

text \<open>
  C5 fails as stated.  A biod with the constructor's heading, \<open>turnSpeed\<close> 10 and a desired
  heading straight down has its heading set from 350 degrees; \<open>toDegrees\<close> reads the new
  heading as \<open>350 * degsToRads * radsToDegs\<close>, a little under 350, so the heading's angle
  has changed by a little more than 10 degrees.
\<close>

theorem measured_turn_exceeds_rate:
  "turnSpeed (Biod (Vector 400 0) 3 10 7 40 200 20 (Vector 800 600))
     < angularDifference
         (Vector_toDegrees (heading (Biod (Vector 400 0) 3 10 7 40 200 20 (Vector 800 600))))
         (Vector_toDegrees (heading
            (Biod_move (Biod (Vector 400 0) 3 10 7 40 200 20 (Vector 800 600)) (Vector 0 (- 1)))))"
proof -
  let ?b = "Biod (Vector 400 0) 3 10 7 40 200 20 (Vector 800 600)"
  have hb: "Vector_toDegrees (heading ?b) = 0" "turnSpeed ?b = 10"
    by (simp_all add: Biod_def Vector_toDegrees_east)
  have tb: "turnedAngle 10 0 (Vector_toDegrees (Vector 0 (- 1))) = 350"
    using turnedAngle_south[of 10] by simp
  have "Vector_toDegrees (heading (Biod_move ?b (Vector 0 (- 1))))
      = 350 * degsToRads * radsToDegs"
    unfolding heading_Biod_move hb tb by (rule Vector_toDegrees_fromDegrees) simp_all
  then show ?thesis
    unfolding hb by (simp add: angularDifference_def degsToRads_def radsToDegs_def)
qed

text \<open>
  C5, amended.  \<open>move\<close>, of a Biod and of a Predator with a non-negative \<open>turnSpeed\<close>, for
  every desired heading sets the heading from an angle in \<open>[0, 360)\<close> degrees whose
  difference, with wraparound at 0/360, from the angle \<open>toDegrees\<close> reads off the old
  heading is at most \<open>turnSpeed\<close>; the turn goes by \<open>min(turnSpeed, arc)\<close> along the
  shorter of the two arcs, upwards when \<open>(desired - current + 360) % 360\<close> is the smaller
  and downwards otherwise.  The angle \<open>toDegrees\<close> reads off the new heading is that
  angle times \<open>degsToRads * radsToDegs\<close>, and its difference from the old angle is at most
  \<open>turnSpeed\<close> and half a millionth of a degree.
\<close>

theorem turn_within_rate:
  fixes b :: biod and p :: predator
  assumes "0 \<le> turnSpeed b" and "0 \<le> turnSpeed p"
  shows "heading (Biod_move b nh) = Vector_fromDegrees
           (turnedAngle (turnSpeed b) (Vector_toDegrees (heading b)) (Vector_toDegrees nh))
       \<and> Vector_toDegrees (heading (Biod_move b nh))
           = turnedAngle (turnSpeed b) (Vector_toDegrees (heading b)) (Vector_toDegrees nh)
               * degsToRads * radsToDegs
       \<and> 0 \<le> turnedAngle (turnSpeed b) (Vector_toDegrees (heading b)) (Vector_toDegrees nh)
       \<and> turnedAngle (turnSpeed b) (Vector_toDegrees (heading b)) (Vector_toDegrees nh) < 360
       \<and> angularDifference (Vector_toDegrees (heading b))
           (turnedAngle (turnSpeed b) (Vector_toDegrees (heading b)) (Vector_toDegrees nh))
           \<le> turnSpeed b
       \<and> turnsTowards (turnSpeed b) (Vector_toDegrees (heading b)) (Vector_toDegrees nh)
           (turnedAngle (turnSpeed b) (Vector_toDegrees (heading b)) (Vector_toDegrees nh))
       \<and> angularDifference (Vector_toDegrees (heading b))
           (Vector_toDegrees (heading (Biod_move b nh))) \<le> turnSpeed b + 1 / 2000000
       \<and> heading (fst (Predator_move p nh biods)) = Vector_fromDegrees
           (turnedAngle (turnSpeed p) (Vector_toDegrees (heading p)) (Vector_toDegrees nh))
       \<and> Vector_toDegrees (heading (fst (Predator_move p nh biods)))
           = turnedAngle (turnSpeed p) (Vector_toDegrees (heading p)) (Vector_toDegrees nh)
               * degsToRads * radsToDegs
       \<and> 0 \<le> turnedAngle (turnSpeed p) (Vector_toDegrees (heading p)) (Vector_toDegrees nh)
       \<and> turnedAngle (turnSpeed p) (Vector_toDegrees (heading p)) (Vector_toDegrees nh) < 360
       \<and> angularDifference (Vector_toDegrees (heading p))
           (turnedAngle (turnSpeed p) (Vector_toDegrees (heading p)) (Vector_toDegrees nh))
           \<le> turnSpeed p
       \<and> turnsTowards (turnSpeed p) (Vector_toDegrees (heading p)) (Vector_toDegrees nh)
           (turnedAngle (turnSpeed p) (Vector_toDegrees (heading p)) (Vector_toDegrees nh))
       \<and> angularDifference (Vector_toDegrees (heading p))
           (Vector_toDegrees (heading (fst (Predator_move p nh biods))))
           \<le> turnSpeed p + 1 / 2000000"
proof -
  have rb: "Vector_toDegrees (heading (Biod_move b nh))
           = turnedAngle (turnSpeed b) (Vector_toDegrees (heading b)) (Vector_toDegrees nh)
               * degsToRads * radsToDegs"
    unfolding heading_Biod_move by (rule read_back_turnedAngle[OF assms(1)])
  have rp: "Vector_toDegrees (heading (fst (Predator_move p nh biods)))
           = turnedAngle (turnSpeed p) (Vector_toDegrees (heading p)) (Vector_toDegrees nh)
               * degsToRads * radsToDegs"
    unfolding heading_Predator_move by (rule read_back_turnedAngle[OF assms(2)])
  show ?thesis
    using turnedAngle_cases[OF assms(1) Vector_toDegrees_range Vector_toDegrees_range,
        of "heading b" nh]
      turnedAngle_cases[OF assms(2) Vector_toDegrees_range Vector_toDegrees_range,
        of "heading p" nh]
      heading_Biod_move[of b nh] heading_Predator_move[of p nh biods] rb rp
      measured_turn_Biod_move[OF assms(1), of nh]
      measured_turn_Predator_move[OF assms(2), of nh biods]
    by blast
qed

theorem turn_within_rate_witness:
  "0 \<le> turnSpeed (Biod (Vector 400 0) 3 10 7 40 200 20 (Vector 800 600))
   \<and> 0 \<le> turnSpeed (Predator (Vector 0 0) 10 12 10 200 40000 200 (Vector 800 600))
   \<and> heading (Biod_move (Biod (Vector 400 0) 3 10 7 40 200 20 (Vector 800 600)) (Vector 0 (- 1)))
       = Vector_fromDegrees 350
   \<and> Vector_toDegrees (heading (Biod_move (Biod (Vector 400 0) 3 10 7 40 200 20 (Vector 800 600))
        (Vector 0 (- 1)))) = 350 * degsToRads * radsToDegs
   \<and> angularDifference 0 350 \<le> 10
   \<and> angularDifference 0 (350 * degsToRads * radsToDegs) \<le> 10 + 1 / 2000000
   \<and> heading (fst (Predator_move (Predator (Vector 0 0) 10 12 10 200 40000 200 (Vector 800 600))
        (Vector 0 (- 1)) [])) = Vector_fromDegrees 348
   \<and> Vector_toDegrees (heading (fst (Predator_move
        (Predator (Vector 0 0) 10 12 10 200 40000 200 (Vector 800 600)) (Vector 0 (- 1)) [])))
       = 348 * degsToRads * radsToDegs
   \<and> angularDifference 0 348 \<le> 12
   \<and> angularDifference 0 (348 * degsToRads * radsToDegs) \<le> 12 + 1 / 2000000"
proof -
  let ?b = "Biod (Vector 400 0) 3 10 7 40 200 20 (Vector 800 600)"
  let ?p = "Predator (Vector 0 0) 10 12 10 200 40000 200 (Vector 800 600)"
  have 1: "0 \<le> turnSpeed ?b" by (simp add: Biod_def)
  have 2: "0 \<le> turnSpeed ?p" by (simp add: Predator_def)
  have hb: "Vector_toDegrees (heading ?b) = 0" "turnSpeed ?b = 10"
    by (simp_all add: Biod_def Vector_toDegrees_east)
  have hp: "Vector_toDegrees (heading ?p) = 0" "turnSpeed ?p = 12"
    by (simp_all add: Predator_def Vector_toDegrees_east)
  have tb: "turnedAngle 10 0 (Vector_toDegrees (Vector 0 (- 1))) = 350"
    using turnedAngle_south[of 10] by simp
  have tp: "turnedAngle 12 0 (Vector_toDegrees (Vector 0 (- 1))) = 348"
    using turnedAngle_south[of 12] by simp
  note t = turn_within_rate [OF 1 2, of "Vector 0 (- 1)" "[]", unfolded hb hp tb tp]
  have rb: "Vector_toDegrees (heading (Biod_move ?b (Vector 0 (- 1))))
      = 350 * degsToRads * radsToDegs" using t by blast
  have rp: "Vector_toDegrees (heading (fst (Predator_move ?p (Vector 0 (- 1)) [])))
      = 348 * degsToRads * radsToDegs" using t by blast
  have mb: "angularDifference 0 (350 * degsToRads * radsToDegs) \<le> 10 + 1 / 2000000"
    using t unfolding rb by blast
  have mp: "angularDifference 0 (348 * degsToRads * radsToDegs) \<le> 12 + 1 / 2000000"
    using t unfolding rp by blast
  from t 1 2 rb rp mb mp show ?thesis by blast
qed

section \<open>Wrapping\<close>

lemma wrapAxis_below:
  assumes "- d < q" "q < 0"
  shows "wrapAxis q d = d"
  using assms js_mod_small_neg[of d q] by (simp add: wrapAxis_def Let_def)

lemma sin_below_east:
  assumes "pi < t" "t < 2 * pi"
  shows "sin t < 0" "- 1 \<le> sin t"
proof -
  have "sin (t - pi) > 0" using assms by (intro sin_gt_zero) auto
  then show "sin t < 0" by (simp add: sin_diff)
  show "- 1 \<le> sin t" by simp
qed

text \<open>
  C4 does not hold of the code.  A biod at \<open>(400, 0)\<close>, inside the 800 by 600 sandbox, with
  the constructor's heading and a desired heading straight down turns to 350 degrees and
  steps to a negative \<open>y\<close>; the \<open>if\<close> after the \<open>%\<close> then stores
  \<open>sandboxDimensions.y\<close> itself, so the \<open>y\<close> after the move is 600, which is not below the
  dimension.  The same happens to a predator.
\<close>

theorem move_leaves_arena:
  "vec_y (position (Biod_move (Biod (Vector 400 0) 3 10 7 40 200 20 (Vector 800 600))
       (Vector 0 (- 1)))) = 600
   \<and> vec_y (position (fst (Predator_move
       (Predator (Vector 400 0) 10 12 10 200 40000 200 (Vector 800 600)) (Vector 0 (- 1)) [])))
       = 600"
proof -
  let ?b = "Biod (Vector 400 0) 3 10 7 40 200 20 (Vector 800 600)"
  let ?p = "Predator (Vector 400 0) 10 12 10 200 40000 200 (Vector 800 600)"
  have sb: "sin (350 * degsToRads) < 0" "- 1 \<le> sin (350 * degsToRads)"
    by (rule sin_below_east; use pi_lower pi_upper in \<open>simp add: degsToRads_def\<close>)+
  have sp: "sin (348 * degsToRads) < 0" "- 1 \<le> sin (348 * degsToRads)"
    by (rule sin_below_east; use pi_lower pi_upper in \<open>simp add: degsToRads_def\<close>)+
  have wb: "wrapAxis (sin (350 * degsToRads) * 3) 600 = 600"
    by (rule wrapAxis_below) (use sb in linarith)+
  have wp: "wrapAxis (sin (348 * degsToRads) * 10) 600 = 600"
    by (rule wrapAxis_below) (use sp in linarith)+
  have "vec_y (position (Biod_move ?b (Vector 0 (- 1)))) = 600"
    using turnedAngle_south[of 10] wb
    by (simp add: Biod_move_def Biod_def Let_def Vector_toDegrees_east Vector_fromDegrees_def
        Vector_fromAngle_def Vector_scale_def)
  moreover have "vec_y (position (fst (Predator_move ?p (Vector 0 (- 1)) []))) = 600"
    using turnedAngle_south[of 12] wp
    by (simp add: Predator_move_def Predator_def Let_def Vector_toDegrees_east
        Vector_fromDegrees_def Vector_fromAngle_def Vector_scale_def)
  ultimately show ?thesis by blast
qed

text \<open>
  What holds after a move in a sandbox of positive dimensions: every component lies between
  0 and the dimension, the dimension itself included.
\<close>

lemma wrapAxis_range:
  assumes "0 < d"
  shows "0 \<le> wrapAxis p d" "wrapAxis p d \<le> d"
proof -
  show "0 \<le> wrapAxis p d" using assms by (simp add: wrapAxis_def Let_def)
  show "wrapAxis p d \<le> d"
  proof (cases "0 \<le> p")
    case True
    then show ?thesis using js_mod_range[OF True assms] by (simp add: wrapAxis_def Let_def)
  next
    case False
    then show ?thesis using js_mod_range_neg[of p d] assms
      by (simp add: wrapAxis_def Let_def)
  qed
qed

lemma position_Biod_move_range:
  assumes "0 < vec_x (sandboxDimensions b)" "0 < vec_y (sandboxDimensions b)"
  shows "0 \<le> vec_x (position (Biod_move b nh))"
    and "vec_x (position (Biod_move b nh)) \<le> vec_x (sandboxDimensions b)"
    and "0 \<le> vec_y (position (Biod_move b nh))"
    and "vec_y (position (Biod_move b nh)) \<le> vec_y (sandboxDimensions b)"
  using wrapAxis_range[OF assms(1)] wrapAxis_range[OF assms(2)]
  by (simp_all add: Biod_move_def Let_def)

section \<open>Visible neighbours and crowding\<close>

text \<open>
  The visible neighbours of a biod are the other biods of the flock within its
  \<open>sightRadius\<close> for which \<open>cosDot\<close> is positive.
\<close>

lemma Biod_neighbors_iff:
  "i \<in> set (Biod_neighbors self biods) \<longleftrightarrow>
     i < length biods
     \<and> Vector_getDistance (position (biods ! i)) (position (biods ! self))
         \<le> sightRadius (biods ! self)
     \<and> i \<noteq> self
     \<and> 0 < cosDot (heading (biods ! self)) (position (biods ! self)) (position (biods ! i))"
  by (auto simp: Biod_neighbors_def)

text \<open>
  C1 does not hold of the code.  A biod at \<open>(10,0)\<close> heading along \<open>(1,0)\<close> has the biod
  at \<open>(5,0)\<close> exactly behind it: the dot product of its heading with the direction to that
  biod is \<open>-1\<close>.  The source's \<open>dot\<close> adds the \<open>y\<close> components instead of multiplying
  them and \<open>cosDot\<close> is the cosine of its result, here \<open>cos(-1) > 0\<close>, so the biod
  behind is selected as a visible neighbour.
\<close>

theorem neighbor_behind_is_selected:
  "Biod_neighbors 0 [Biod (Vector 10 0) 3 10 7 40 200 20 (Vector 800 600),
                     Biod (Vector 5 0) 3 10 7 40 200 20 (Vector 800 600)] = [1]
   \<and> dotProduct (heading (Biod (Vector 10 0) 3 10 7 40 200 20 (Vector 800 600)))
        (Vector_getDirectionTo (Vector 10 0) (Vector 5 0)) = - 1"
proof -
  have d: "Vector_getDirectionTo (Vector 10 0) (Vector 5 0) = Vector (- 1) 0"
    by (simp add: Vector_getDirectionTo_def Vector_normalize_def Vector_length_def sqrt_25)
  have c: "0 < cosDot (Vector 1 0) (Vector 10 0) (Vector 5 0)"
    using cos_one_pos by (simp add: cosDot_def d Vector_dot_def)
  have "Biod_neighbors 0 [Biod (Vector 10 0) 3 10 7 40 200 20 (Vector 800 600),
                     Biod (Vector 5 0) 3 10 7 40 200 20 (Vector 800 600)] = [1]"
    using c by (simp add: Biod_neighbors_def upt_2 Biod_def Vector_getDistance_def sqrt_25)
  moreover have "dotProduct (heading (Biod (Vector 10 0) 3 10 7 40 200 20 (Vector 800 600)))
        (Vector_getDirectionTo (Vector 10 0) (Vector 5 0)) = - 1"
    by (simp add: d dotProduct_def Biod_def)
  ultimately show ?thesis by blast
qed

text \<open>
  C2 does not hold of the code.  For a biod at \<open>(1,0)\<close> with \<open>proximityRadius\<close> 40 and
  severity 20 and a visible neighbour at \<open>(11,0)\<close>, the radial point is \<open>(41,0)\<close> and the
  repulsion magnitude of the specification is \<open>30 * 20 = 600\<close>.  The source drops the
  result of \<open>proximityPoint.scale\<close> and never adds the biod's position, so it measures the
  neighbour's distance to the point \<open>(1,0)\<close> that the direction vector names: the force is
  \<open>10 * 20 = 200\<close> and the averaged repulsion is \<open>(-200, 0)\<close>.
\<close>

theorem crowding_uses_direction_as_point:
  "crowdForce (Biod (Vector 1 0) 3 10 7 40 200 20 (Vector 800 600))
              (Biod (Vector 11 0) 3 10 7 40 200 20 (Vector 800 600)) = 200
   \<and> Biod_claustrophobia 0 [Biod (Vector 1 0) 3 10 7 40 200 20 (Vector 800 600),
                            Biod (Vector 11 0) 3 10 7 40 200 20 (Vector 800 600)]
       = Vector (- 200) 0
   \<and> repulsionMagnitude (Biod (Vector 1 0) 3 10 7 40 200 20 (Vector 800 600))
              (Biod (Vector 11 0) 3 10 7 40 200 20 (Vector 800 600)) = 600"
proof -
  let ?a = "Biod (Vector 1 0) 3 10 7 40 200 20 (Vector 800 600)"
  let ?n = "Biod (Vector 11 0) 3 10 7 40 200 20 (Vector 800 600)"
  have d: "Vector_getDirectionTo (Vector 1 0) (Vector 11 0) = Vector 1 0"
    by (simp add: Vector_getDirectionTo_def Vector_normalize_def Vector_length_def sqrt_100)
  have d': "Vector_getDirectionTo (Vector 11 0) (Vector 1 0) = Vector (- 1) 0"
    by (simp add: Vector_getDirectionTo_def Vector_normalize_def Vector_length_def sqrt_100)
  have g: "Vector_getDistance (Vector 11 0) (Vector 1 0) = 10"
    by (simp add: Vector_getDistance_def sqrt_100)
  have f: "crowdForce ?a ?n = 200"
    by (simp add: crowdForce_def Let_def Biod_def d g)
  have c: "0 < cosDot (Vector 1 0) (Vector 1 0) (Vector 11 0)"
    using cos_one_pos by (simp add: cosDot_def d Vector_dot_def)
  have nb: "Biod_neighbors 0 [?a, ?n] = [1]"
    using c by (simp add: Biod_neighbors_def upt_2 Biod_def g)
  have p: "position ?a = Vector 1 0" "position ?n = Vector 11 0" "proximityRadius ?a = 40"
    by (simp_all add: Biod_def)
  have cl: "Biod_claustrophobia 0 [?a, ?n] = Vector (- 200) 0"
    by (simp add: Biod_claustrophobia_def crowdLoop_def nb crowdStep_def p g d' f
        Vector_scale_def Vector_add_def averageBy_def)
  have "sqrt 900 = 30" by (rule real_sqrt_unique) simp_all
  then have g': "Vector_getDistance (Vector 11 0) (Vector 41 0) = 30"
    by (simp add: Vector_getDistance_def)
  have "radialPoint ?a ?n = Vector 41 0"
    by (simp add: radialPoint_def p d Vector_scale_def Vector_add_def)
  then have s: "repulsionMagnitude ?a ?n = 600"
    by (simp add: repulsionMagnitude_def p g g') (simp add: Biod_def)
  from f cl s show ?thesis by blast
qed

section \<open>Predator pursuit\<close>

text \<open>
  What the scan of \<open>Predator.calculateNewHeading\<close> leaves in \<open>victim\<close> and
  \<open>distanceToVictim\<close>: started from \<open>(v0, d0)\<close>, either nothing in the flock is nearer
  than \<open>d0\<close> with a positive \<open>cosDot\<close> and the pair is unchanged, or the victim is such a
  biod and none such is nearer.
\<close>

lemma chaseStep_cases:
  "chaseStep p (v, d) b =
     (if Vector_getDistance (position b) (position p) < d
         \<and> 0 < cosDot (heading p) (position p) (position b)
      then (Some b, Vector_getDistance (position b) (position p)) else (v, d))"
  by (simp add: chaseStep_def)

lemma chase_fold:
  assumes "foldl (chaseStep p) (v0, d0) bs = (v, d)"
  shows "(\<forall>b \<in> set bs. 0 < cosDot (heading p) (position p) (position b)
            \<and> Vector_getDistance (position b) (position p) < d0
            \<longrightarrow> d \<le> Vector_getDistance (position b) (position p))
       \<and> (v = v0 \<and> d = d0
            \<and> (\<forall>b \<in> set bs. \<not> (0 < cosDot (heading p) (position p) (position b)
                  \<and> Vector_getDistance (position b) (position p) < d0))
          \<or> (\<exists>w \<in> set bs. v = Some w
                \<and> 0 < cosDot (heading p) (position p) (position w)
                \<and> Vector_getDistance (position w) (position p) = d \<and> d < d0))"
  using assms
proof (induction bs arbitrary: v0 d0)
  case Nil
  then show ?case by simp
next
  case (Cons b bs)
  let ?hit = "Vector_getDistance (position b) (position p) < d0
         \<and> 0 < cosDot (heading p) (position p) (position b)"
  show ?case
  proof (cases ?hit)
    case True
    then have "chaseStep p (v0, d0) b = (Some b, Vector_getDistance (position b) (position p))"
      by (subst chaseStep_cases) simp
    then have "foldl (chaseStep p) (Some b, Vector_getDistance (position b) (position p)) bs = (v, d)"
      using Cons.prems by simp
    from Cons.IH[OF this] True show ?thesis by (auto; force)
  next
    case False
    then have "chaseStep p (v0, d0) b = (v0, d0)"
      by (subst chaseStep_cases) simp
    then have "foldl (chaseStep p) (v0, d0) bs = (v, d)"
      using Cons.prems by simp
    from Cons.IH[OF this] False show ?thesis by auto
  qed
qed

text \<open>
  The scan starts from \<open>distanceToVictim = sightRadius + 1\<close>: a predator with
  \<open>sightRadius\<close> 200 at \<open>(0,0)\<close> chases a biod at \<open>(120.3, 160.4)\<close>, at distance 200.5.
\<close>

lemma predator_sees_beyond_sightRadius:
  "sightRadius (Predator (Vector 0 0) 10 12 10 200 40000 200 (Vector 800 600))
     < Vector_getDistance (position (Biod (Vector 120.3 160.4) 3 10 7 40 200 20 (Vector 800 600)))
         (position (Predator (Vector 0 0) 10 12 10 200 40000 200 (Vector 800 600)))
   \<and> Predator_calculateNewHeading (Predator (Vector 0 0) 10 12 10 200 40000 200 (Vector 800 600))
        [Biod (Vector 120.3 160.4) 3 10 7 40 200 20 (Vector 800 600)] = Vector (3 / 5) (4 / 5)
   \<and> Predator_calculateNewHeading (Predator (Vector 0 0) 10 12 10 200 40000 200 (Vector 800 600))
        [Biod (Vector 120.3 160.4) 3 10 7 40 200 20 (Vector 800 600)]
       \<noteq> heading (Predator (Vector 0 0) 10 12 10 200 40000 200 (Vector 800 600))"
proof -
  let ?p = "Predator (Vector 0 0) 10 12 10 200 40000 200 (Vector 800 600)"
  let ?b = "Biod (Vector (1203 / 10) (802 / 5)) 3 10 7 40 200 20 (Vector 800 600)"
  have f: "position ?p = Vector 0 0" "heading ?p = Vector 1 0" "sightRadius ?p = 200"
    "position ?b = Vector (1203 / 10) (802 / 5)"
    by (simp_all add: Predator_def Biod_def)
  have d: "Vector_getDirectionTo (Vector 0 0) (Vector (1203 / 10) (802 / 5)) = Vector (3 / 5) (4 / 5)"
    by (simp add: Vector_getDirectionTo_def Vector_normalize_def Vector_length_def sqrt_40200)
  have g: "Vector_getDistance (Vector (1203 / 10) (802 / 5)) (Vector 0 0) = 401 / 2"
    by (simp add: Vector_getDistance_def power2_eq_square sqrt_40200)
  have c: "0 < cosDot (Vector 1 0) (Vector 0 0) (Vector (1203 / 10) (802 / 5))"
    using cos_7_5_pos by (simp add: cosDot_def d Vector_dot_def)
  have "Predator_calculateNewHeading ?p [?b] = Vector (3 / 5) (4 / 5)"
    using c by (simp add: Predator_calculateNewHeading_def chaseStep_def f g d)
  then show ?thesis by (simp add: f g)
qed

text \<open>
  C7 does not hold of the code.  A predator at \<open>(100,0)\<close> with the constructor's heading
  \<open>(1,0)\<close> has the biod at \<open>(50,0)\<close> exactly behind it (the dot product of its heading
  with the direction to the biod is \<open>-1\<close>) and within its \<open>sightRadius\<close>; its
  \<open>cosDot\<close> is \<open>cos(-1) > 0\<close>, so the predator's desired heading is \<open>(-1,0)\<close>, towards
  that biod, and not its current heading.  A predator at \<open>(0,0)\<close> heading along
  \<open>(0,1)\<close> has the biod at \<open>(30,40)\<close> in front of it (dot product \<open>4/5\<close>) at distance
  50; its \<open>cosDot\<close> is \<open>cos(0 + 1 + 4/5) < 0\<close>, so the predator keeps its heading and does
  not chase it.
\<close>

theorem predator_chases_prey_behind:
  "dotProduct (heading (Predator (Vector 100 0) 10 12 10 200 40000 200 (Vector 800 600)))
      (Vector_getDirectionTo (Vector 100 0) (Vector 50 0)) = - 1
   \<and> Vector_getDistance (Vector 50 0) (Vector 100 0) = 50
   \<and> Predator_calculateNewHeading (Predator (Vector 100 0) 10 12 10 200 40000 200 (Vector 800 600))
        [Biod (Vector 50 0) 3 10 7 40 200 20 (Vector 800 600)] = Vector (- 1) 0
   \<and> dotProduct (Vector 0 1) (Vector_getDirectionTo (Vector 0 0) (Vector 30 40)) = 4 / 5
   \<and> Vector_getDistance (Vector 30 40) (Vector 0 0) = 50
   \<and> Predator_calculateNewHeading
        ((Predator (Vector 0 0) 10 12 10 200 40000 200 (Vector 800 600))\<lparr>heading := Vector 0 1\<rparr>)
        [Biod (Vector 30 40) 3 10 7 40 200 20 (Vector 800 600)] = Vector 0 1"
proof -
  let ?p = "Predator (Vector 100 0) 10 12 10 200 40000 200 (Vector 800 600)"
  let ?b = "Biod (Vector 50 0) 3 10 7 40 200 20 (Vector 800 600)"
  let ?q = "(Predator (Vector 0 0) 10 12 10 200 40000 200 (Vector 800 600))\<lparr>heading := Vector 0 1\<rparr>"
  let ?c = "Biod (Vector 30 40) 3 10 7 40 200 20 (Vector 800 600)"
  have f: "position ?p = Vector 100 0" "heading ?p = Vector 1 0" "sightRadius ?p = 200"
    "position ?b = Vector 50 0" "position ?q = Vector 0 0" "heading ?q = Vector 0 1"
    "sightRadius ?q = 200" "position ?c = Vector 30 40"
    by (simp_all add: Predator_def Biod_def)
  have d: "Vector_getDirectionTo (Vector 100 0) (Vector 50 0) = Vector (- 1) 0"
    by (simp add: Vector_getDirectionTo_def Vector_normalize_def Vector_length_def sqrt_2500)
  have g: "Vector_getDistance (Vector 50 0) (Vector 100 0) = 50"
    by (simp add: Vector_getDistance_def sqrt_2500)
  have c: "0 < cosDot (Vector 1 0) (Vector 100 0) (Vector 50 0)"
    using cos_one_pos by (simp add: cosDot_def d Vector_dot_def)
  have 1: "Predator_calculateNewHeading ?p [?b] = Vector (- 1) 0"
    using c by (simp add: Predator_calculateNewHeading_def chaseStep_def f g d)
  have d2: "Vector_getDirectionTo (Vector 0 0) (Vector 30 40) = Vector (3 / 5) (4 / 5)"
    by (simp add: Vector_getDirectionTo_def Vector_normalize_def Vector_length_def sqrt_2500)
  have g2: "Vector_getDistance (Vector 30 40) (Vector 0 0) = 50"
    by (simp add: Vector_getDistance_def sqrt_2500)
  have c2: "\<not> 0 < cosDot (Vector 0 1) (Vector 0 0) (Vector 30 40)"
    using cos_9_5_neg by (simp add: cosDot_def d2 Vector_dot_def)
  have 2: "Predator_calculateNewHeading ?q [?c] = Vector 0 1"
    using c2 by (simp add: Predator_calculateNewHeading_def chaseStep_def f g2)
  have 3: "dotProduct (heading ?p) (Vector_getDirectionTo (Vector 100 0) (Vector 50 0)) = - 1"
    by (simp add: d f dotProduct_def)
  have 4: "dotProduct (Vector 0 1) (Vector_getDirectionTo (Vector 0 0) (Vector 30 40)) = 4 / 5"
    by (simp add: d2 dotProduct_def)
  from 1 2 3 4 g g2 show ?thesis by blast
qed

section \<open>A zero steering vector\<close>

text \<open>
  The divisions of \<open>calculateNewHeading\<close> have non-zero divisors: a component of the
  summed repulsion is divided by \<open>claustroCount\<close> only when it is not 0, and then some
  neighbour was counted; a component of the summed positions is divided by
  \<open>neighbors.length\<close> only when it is not 0, and then there is a neighbour; the last division
  is by \<open>3 + emitterInfluences.length\<close>; and \<open>normalize\<close> divides by a length it has
  found not to be 0.
\<close>

lemma foldl_crowdStep_count:
  assumes "foldl (crowdStep this) (cl0, k0, ah0, ap0) ns = (cl, k, ah, ap)"
    and "k0 = 0 \<longrightarrow> cl0 = Vector 0 0"
  shows "k = 0 \<longrightarrow> cl = Vector 0 0"
  using assms
proof (induction ns arbitrary: cl0 k0 ah0 ap0)
  case Nil
  then show ?case by simp
next
  case (Cons n ns)
  obtain cl1 k1 ah1 ap1 where s: "crowdStep this (cl0, k0, ah0, ap0) n = (cl1, k1, ah1, ap1)"
    by (cases "crowdStep this (cl0, k0, ah0, ap0) n") auto
  have "k1 = 0 \<longrightarrow> cl1 = Vector 0 0"
    using s Cons.prems(2) by (auto simp: crowdStep_def split: if_splits)
  moreover have "foldl (crowdStep this) (cl1, k1, ah1, ap1) ns = (cl, k, ah, ap)"
    using Cons.prems(1) s by simp
  ultimately show ?case using Cons.IH by blast
qed

lemma crowdLoop_divisors:
  assumes "crowdLoop self biods = (cl, k, ah, ap)"
  shows "cl \<noteq> Vector 0 0 \<Longrightarrow> 0 < k"
    and "ap \<noteq> Vector 0 0 \<Longrightarrow> 0 < length (Biod_neighbors self biods)"
proof -
  show "cl \<noteq> Vector 0 0 \<Longrightarrow> 0 < k"
    using foldl_crowdStep_count[OF assms[unfolded crowdLoop_def]] by auto
  show "ap \<noteq> Vector 0 0 \<Longrightarrow> 0 < length (Biod_neighbors self biods)"
    using assms by (cases "Biod_neighbors self biods") (auto simp: crowdLoop_def)
qed

lemma Vector_toDegrees_zero: "Vector_toDegrees (Vector 0 0) = 0"
  by (simp add: Vector_toDegrees_def Vector_toAngle_def atan2_def)

lemma Biod_move_zero: "Biod_move b (Vector 0 0) = Biod_move b (Vector 1 0)"
  by (simp add: Biod_move_def Vector_toDegrees_zero Vector_toDegrees_east)

lemma turnedAngle_same:
  assumes "0 \<le> ts"
  shows "turnedAngle ts 0 0 = 0"
proof -
  have m: "js_mod 360 360 = 0" using js_mod_once[of 360 360] by simp
  have "rotationAmount ts 0 0 = 0"
    using assms by (simp add: rotationAmount_def m)
  then show ?thesis by (simp add: turnedAngle_def m)
qed

lemma Vector_fromDegrees_0: "Vector_fromDegrees 0 = Vector 1 0"
  by (simp add: Vector_fromDegrees_def Vector_fromAngle_def)

lemma unit_or_zero:
  "Vector_length (Vector_normalize v) = 1 \<or> Vector_normalize v = Vector 0 0"
  using Vector_length_normalize[of v] Vector_normalize_zero by (cases "v = Vector 0 0") auto

lemma Biod_combined_zero:
  assumes "Biod_forceSum self biods = Vector 0 0"
  shows "Biod_combined self biods = Vector 0 0"
  using assms by (simp add: Biod_combined_def Let_def)

lemma Vector_toDegrees_north: "Vector_toDegrees (Vector 0 1) = pi / 2 * radsToDegs"
  by (simp add: Vector_toDegrees_def Vector_toAngle_def atan2_def Let_def)

lemma turnedAngle_down_to_east:
  assumes "0 < ts" "ts \<le> c" "c \<le> 180"
  shows "turnedAngle ts c 0 = c - ts"
proof -
  have a: "js_mod (360 - c) 360 = 360 - c" "js_mod (c + 360) 360 = c"
    using arcs[of c 0] assms by simp_all
  have "rotationAmount ts c 0 = - ts"
    using assms by (simp add: rotationAmount_def Let_def a)
  then show ?thesis
    using assms js_mod_once[of 360 "c - ts + 360"] by (simp add: turnedAngle_def)
qed

text \<open>
  C3 fails as stated.  A biod at the origin with no neighbour and no emitter influence has
  the zero vector as the sum of its four forces; \<open>calculateNewHeading\<close> returns the zero
  vector, \<open>move\<close> reads its angle as 0 degrees, and a biod whose heading is \<open>(0,1)\<close> turns
  by \<open>turnSpeed\<close> towards 0 degrees instead of keeping its heading.
\<close>

theorem zero_steering_turns_east:
  "Biod_forceSum 0 [(Biod (Vector 0 0) 3 10 7 40 200 20 (Vector 800 600))\<lparr>heading := Vector 0 1\<rparr>]
     = Vector 0 0
   \<and> heading (Biod_move ((Biod (Vector 0 0) 3 10 7 40 200 20 (Vector 800 600))\<lparr>heading := Vector 0 1\<rparr>)
        (fst (Biod_calculateNewHeading 0
           [(Biod (Vector 0 0) 3 10 7 40 200 20 (Vector 800 600))\<lparr>heading := Vector 0 1\<rparr>])))
       \<noteq> heading ((Biod (Vector 0 0) 3 10 7 40 200 20 (Vector 800 600))\<lparr>heading := Vector 0 1\<rparr>)"
proof -
  let ?b = "(Biod (Vector 0 0) 3 10 7 40 200 20 (Vector 800 600))\<lparr>heading := Vector 0 1\<rparr>"
  have nb: "Biod_neighbors 0 [?b] = []" by (simp add: Biod_neighbors_def)
  have p: "position ?b = Vector 0 0" "emitterInfluences ?b = []" "heading ?b = Vector 0 1"
    "turnSpeed ?b = 10"
    by (simp_all add: Biod_def)
  have 1: "Biod_forceSum 0 [?b] = Vector 0 0"
    by (simp add: Biod_forceSum_def Biod_claustrophobia_def Biod_avgHeading_def
        Biod_avgPosition_def Biod_emitterSum_def crowdLoop_no_neighbors[OF nb] nb p
        averageBy_def Vector_normalize_zero Vector_getDirectionTo_same Vector_add_def)
  then have 2: "fst (Biod_calculateNewHeading 0 [?b]) = Vector 0 0"
    by (simp add: Biod_calculateNewHeading_def Biod_combined_zero Vector_normalize_zero)
  let ?c = "pi / 2 * radsToDegs"
  have c: "10 \<le> ?c" "?c \<le> 180"
    using pi_lower pi_upper by (simp_all add: radsToDegs_def)
  have t: "turnedAngle 10 ?c 0 = ?c - 10"
    by (rule turnedAngle_down_to_east) (use c in simp_all)
  have r: "0 < (?c - 10) * degsToRads" "(?c - 10) * degsToRads < pi / 2"
    using pi_lower pi_upper by (simp_all add: radsToDegs_def degsToRads_def)
  have "0 < cos ((?c - 10) * degsToRads)"
    by (rule cos_gt_zero) (use r in simp_all)
  then have "Vector_fromDegrees (?c - 10) \<noteq> Vector 0 1"
    by (simp add: Vector_fromDegrees_def Vector_fromAngle_def)
  then have "heading (Biod_move ?b (Vector 0 0)) \<noteq> heading ?b"
    unfolding heading_Biod_move p Vector_toDegrees_zero Vector_toDegrees_north t .
  with 1 2 show ?thesis by simp
qed

text \<open>
  C3, amended.  \<open>normalize\<close> returns the zero vector unchanged, and the heading that
  \<open>calculateNewHeading\<close> returns is a unit vector or the zero vector.  Whenever the sum of
  the four forces is the zero vector it is the zero vector, and \<open>move\<close> then does exactly
  what it does for the desired heading \<open>(1,0)\<close>: it sets the heading from the angle
  \<open>turnedAngle\<close> gives for the desired angle 0.  For a non-negative \<open>turnSpeed\<close> that angle
  lies in \<open>[0, 360)\<close>, differs from the angle \<open>toDegrees\<close> reads off the old heading by at
  most \<open>turnSpeed\<close>, is reached by \<open>min(turnSpeed, arc)\<close> along the shorter arc towards
  0 degrees, and is read back by \<open>toDegrees\<close> times \<open>degsToRads * radsToDegs\<close>; a biod
  whose heading is \<open>(1,0)\<close> keeps it.
\<close>

theorem zero_steering_is_east:
  "Vector_normalize (Vector 0 0) = Vector 0 0
   \<and> (Vector_length (fst (Biod_calculateNewHeading self biods)) = 1
        \<or> fst (Biod_calculateNewHeading self biods) = Vector 0 0)
   \<and> (Biod_forceSum self biods = Vector 0 0
        \<longrightarrow> fst (Biod_calculateNewHeading self biods) = Vector 0 0
          \<and> Biod_move b (fst (Biod_calculateNewHeading self biods)) = Biod_move b (Vector 1 0))
   \<and> Biod_move b (Vector 0 0) = Biod_move b (Vector 1 0)
   \<and> heading (Biod_move b (Vector 0 0))
       = Vector_fromDegrees (turnedAngle (turnSpeed b) (Vector_toDegrees (heading b)) 0)
   \<and> (0 \<le> turnSpeed b
        \<longrightarrow> 0 \<le> turnedAngle (turnSpeed b) (Vector_toDegrees (heading b)) 0
          \<and> turnedAngle (turnSpeed b) (Vector_toDegrees (heading b)) 0 < 360
          \<and> angularDifference (Vector_toDegrees (heading b))
               (turnedAngle (turnSpeed b) (Vector_toDegrees (heading b)) 0) \<le> turnSpeed b
          \<and> turnsTowards (turnSpeed b) (Vector_toDegrees (heading b)) 0
               (turnedAngle (turnSpeed b) (Vector_toDegrees (heading b)) 0)
          \<and> Vector_toDegrees (heading (Biod_move b (Vector 0 0)))
               = turnedAngle (turnSpeed b) (Vector_toDegrees (heading b)) 0
                   * degsToRads * radsToDegs)
   \<and> (heading b = Vector 1 0 \<and> 0 \<le> turnSpeed b
        \<longrightarrow> heading (Biod_move b (Vector 0 0)) = heading b)"
proof -
  have 1: "Vector_length (fst (Biod_calculateNewHeading self biods)) = 1
        \<or> fst (Biod_calculateNewHeading self biods) = Vector 0 0"
    using unit_or_zero[of "Biod_combined self biods"] by (simp add: Biod_calculateNewHeading_def)
  have 2: "Biod_forceSum self biods = Vector 0 0
        \<longrightarrow> fst (Biod_calculateNewHeading self biods) = Vector 0 0
          \<and> Biod_move b (fst (Biod_calculateNewHeading self biods)) = Biod_move b (Vector 1 0)"
    by (simp add: Biod_calculateNewHeading_def Biod_combined_zero Vector_normalize_zero
        Biod_move_zero)
  have 3: "heading (Biod_move b (Vector 0 0))
       = Vector_fromDegrees (turnedAngle (turnSpeed b) (Vector_toDegrees (heading b)) 0)"
    by (simp add: heading_Biod_move Vector_toDegrees_zero)
  have 4: "heading b = Vector 1 0 \<and> 0 \<le> turnSpeed b
        \<longrightarrow> heading (Biod_move b (Vector 0 0)) = heading b"
    by (simp add: 3 Vector_toDegrees_east turnedAngle_same Vector_fromDegrees_0)
  have 5: "0 \<le> turnedAngle (turnSpeed b) (Vector_toDegrees (heading b)) 0
          \<and> turnedAngle (turnSpeed b) (Vector_toDegrees (heading b)) 0 < 360
          \<and> angularDifference (Vector_toDegrees (heading b))
               (turnedAngle (turnSpeed b) (Vector_toDegrees (heading b)) 0) \<le> turnSpeed b
          \<and> turnsTowards (turnSpeed b) (Vector_toDegrees (heading b)) 0
               (turnedAngle (turnSpeed b) (Vector_toDegrees (heading b)) 0)
          \<and> Vector_toDegrees (heading (Biod_move b (Vector 0 0)))
               = turnedAngle (turnSpeed b) (Vector_toDegrees (heading b)) 0
                   * degsToRads * radsToDegs"
    if ts: "0 \<le> turnSpeed b"
  proof -
    have c: "0 \<le> turnedAngle (turnSpeed b) (Vector_toDegrees (heading b)) 0
          \<and> turnedAngle (turnSpeed b) (Vector_toDegrees (heading b)) 0 < 360
          \<and> angularDifference (Vector_toDegrees (heading b))
               (turnedAngle (turnSpeed b) (Vector_toDegrees (heading b)) 0) \<le> turnSpeed b
          \<and> turnsTowards (turnSpeed b) (Vector_toDegrees (heading b)) 0
               (turnedAngle (turnSpeed b) (Vector_toDegrees (heading b)) 0)"
      by (rule turnedAngle_cases) (use ts Vector_toDegrees_range in simp_all)
    then have "Vector_toDegrees (Vector_fromDegrees
          (turnedAngle (turnSpeed b) (Vector_toDegrees (heading b)) 0))
        = turnedAngle (turnSpeed b) (Vector_toDegrees (heading b)) 0 * degsToRads * radsToDegs"
      by (intro Vector_toDegrees_fromDegrees) simp_all
    with c 3 show ?thesis by simp
  qed
  from 1 2 3 4 5 Biod_move_zero Vector_normalize_zero show ?thesis by blast
qed

theorem zero_steering_is_east_witness:
  "Biod_forceSum 0 [Biod (Vector 0 0) 3 10 7 40 200 20 (Vector 800 600)] = Vector 0 0
   \<and> fst (Biod_calculateNewHeading 0 [Biod (Vector 0 0) 3 10 7 40 200 20 (Vector 800 600)])
       = Vector 0 0
   \<and> heading (Biod (Vector 0 0) 3 10 7 40 200 20 (Vector 800 600)) = Vector 1 0
   \<and> 0 \<le> turnSpeed (Biod (Vector 0 0) 3 10 7 40 200 20 (Vector 800 600))
   \<and> heading (Biod_move (Biod (Vector 0 0) 3 10 7 40 200 20 (Vector 800 600))
        (fst (Biod_calculateNewHeading 0 [Biod (Vector 0 0) 3 10 7 40 200 20 (Vector 800 600)])))
       = Vector 1 0
   \<and> Vector_toDegrees (heading (Biod_move (Biod (Vector 0 0) 3 10 7 40 200 20 (Vector 800 600))
        (Vector 0 0))) = 0"
proof -
  let ?b = "Biod (Vector 0 0) 3 10 7 40 200 20 (Vector 800 600)"
  have nb: "Biod_neighbors 0 [?b] = []" by (simp add: Biod_neighbors_def)
  have p: "position ?b = Vector 0 0" "emitterInfluences ?b = []"
    by (simp_all add: Biod_def)
  have 1: "Biod_forceSum 0 [?b] = Vector 0 0"
    by (simp add: Biod_forceSum_def Biod_claustrophobia_def Biod_avgHeading_def
        Biod_avgPosition_def Biod_emitterSum_def crowdLoop_no_neighbors[OF nb] nb p
        averageBy_def Vector_normalize_zero Vector_getDirectionTo_same Vector_add_def)
  have 2: "heading ?b = Vector 1 0" "0 \<le> turnSpeed ?b" by (simp_all add: Biod_def)
  have ta: "turnedAngle (turnSpeed ?b) (Vector_toDegrees (heading ?b)) 0 = 0"
    using turnedAngle_same[OF 2(2)] by (simp add: 2(1) Vector_toDegrees_east)
  note t = zero_steering_is_east [of 0 "[?b]" ?b]
  from t 1 have 3: "fst (Biod_calculateNewHeading 0 [?b]) = Vector 0 0" by blast
  from t 2 have 4: "heading (Biod_move ?b (Vector 0 0)) = heading ?b" by blast
  from t 2(2) have "Vector_toDegrees (heading (Biod_move ?b (Vector 0 0)))
      = turnedAngle (turnSpeed ?b) (Vector_toDegrees (heading ?b)) 0 * degsToRads * radsToDegs"
    by blast
  then have 5: "Vector_toDegrees (heading (Biod_move ?b (Vector 0 0))) = 0"
    unfolding ta by simp
  from 1 2 3 4 5 show ?thesis by simp
qed

section \<open>One snapshot per phase\<close>

lemma crowdForce_cong:
  "position n = position n' \<Longrightarrow> crowdForce this n = crowdForce this n'"
  by (simp add: crowdForce_def)

lemma crowdStep_cong:
  "position n = position n' \<Longrightarrow> heading n = heading n'
     \<Longrightarrow> crowdStep this acc n = crowdStep this acc n'"
  by (cases acc) (simp add: crowdStep_def crowdForce_cong[of n n'])

lemma foldl_crowdStep_cong:
  assumes "length ns = length ns'"
    and "\<forall>k < length ns. position (ns ! k) = position (ns' ! k) \<and> heading (ns ! k) = heading (ns' ! k)"
  shows "foldl (crowdStep this) acc ns = foldl (crowdStep this) acc ns'"
  using assms
proof (induction ns ns' arbitrary: acc rule: list_induct2)
  case Nil
  then show ?case by simp
next
  case (Cons n ns n' ns')
  from Cons.prems have h: "position n = position n'" "heading n = heading n'" by auto
  from Cons.prems have t: "\<forall>k < length ns. position (ns ! k) = position (ns' ! k)
      \<and> heading (ns ! k) = heading (ns' ! k)" by auto
  show ?case using Cons.IH[OF t] crowdStep_cong[OF h] by simp
qed

lemma Biod_neighbors_cong:
  assumes "sameCourse bs bs'" "bs ! i = bs' ! i"
  shows "Biod_neighbors i bs = Biod_neighbors i bs'"
  using assms unfolding Biod_neighbors_def sameCourse_def
  by (auto intro!: filter_cong)

lemma Biod_neighbors_bound: "j \<in> set (Biod_neighbors i bs) \<Longrightarrow> j < length bs"
  by (simp add: Biod_neighbors_def)

lemma crowdLoop_cong:
  assumes "sameCourse bs bs'" "bs ! i = bs' ! i"
  shows "crowdLoop i bs = crowdLoop i bs'"
proof -
  have n: "Biod_neighbors i bs = Biod_neighbors i bs'"
    by (rule Biod_neighbors_cong[OF assms])
  have "foldl (crowdStep (bs ! i)) acc (map (\<lambda>j. bs ! j) (Biod_neighbors i bs))
      = foldl (crowdStep (bs ! i)) acc (map (\<lambda>j. bs' ! j) (Biod_neighbors i bs))" for acc
  proof (rule foldl_crowdStep_cong)
    show "length (map (\<lambda>j. bs ! j) (Biod_neighbors i bs))
        = length (map (\<lambda>j. bs' ! j) (Biod_neighbors i bs))" by simp
    show "\<forall>k<length (map (\<lambda>j. bs ! j) (Biod_neighbors i bs)).
       position (map (\<lambda>j. bs ! j) (Biod_neighbors i bs) ! k)
         = position (map (\<lambda>j. bs' ! j) (Biod_neighbors i bs) ! k)
       \<and> heading (map (\<lambda>j. bs ! j) (Biod_neighbors i bs) ! k)
         = heading (map (\<lambda>j. bs' ! j) (Biod_neighbors i bs) ! k)"
      using assms(1) Biod_neighbors_bound[of _ i bs]
      by (auto simp: sameCourse_def)
  qed
  then show ?thesis unfolding crowdLoop_def using n assms(2) by simp
qed

lemma Biod_calculateNewHeading_cong:
  assumes "sameCourse bs bs'" "bs ! i = bs' ! i"
  shows "Biod_calculateNewHeading i bs = Biod_calculateNewHeading i bs'"
proof -
  note c = crowdLoop_cong[OF assms] and n = Biod_neighbors_cong[OF assms]
  have 1: "Biod_claustrophobia i bs = Biod_claustrophobia i bs'"
    by (simp add: Biod_claustrophobia_def c)
  have 2: "Biod_avgHeading i bs = Biod_avgHeading i bs'"
    by (simp add: Biod_avgHeading_def c)
  have 3: "Biod_avgPosition i bs = Biod_avgPosition i bs'"
    by (simp add: Biod_avgPosition_def c n assms(2))
  have 4: "Biod_forceSum i bs = Biod_forceSum i bs'"
    by (simp add: Biod_forceSum_def 1 2 3 assms(2))
  have 5: "Biod_combined i bs = Biod_combined i bs'"
    by (simp add: Biod_combined_def 4 assms(2))
  have 6: "Biod_majorInfluence i bs = Biod_majorInfluence i bs'"
    by (simp add: Biod_majorInfluence_def 1 2 3 assms(2))
  show ?thesis by (simp add: Biod_calculateNewHeading_def 5 6 assms(2))
qed

lemma course_Biod_calculateNewHeading:
  "position (snd (Biod_calculateNewHeading i bs)) = position (bs ! i)"
  "heading (snd (Biod_calculateNewHeading i bs)) = heading (bs ! i)"
  by (simp_all add: Biod_calculateNewHeading_def)

lemma headingLoop_snapshot:
  assumes "sameCourse cur biods" "i \<le> length biods"
    and "\<forall>j. i \<le> j \<and> j < length biods \<longrightarrow> cur ! j = biods ! j"
  shows "fst (headingLoop i cur acc)
           = acc @ map (\<lambda>j. fst (Biod_calculateNewHeading j biods)) [i..<length biods]
       \<and> snd (headingLoop i cur acc)
           = take i cur @ map (\<lambda>j. snd (Biod_calculateNewHeading j biods)) [i..<length biods]"
  using assms
proof (induction i cur acc rule: headingLoop.induct)
  case (1 i cur acc)
  have len: "length cur = length biods" using "1.prems"(1) by (simp add: sameCourse_def)
  show ?case
  proof (cases "i < length cur")
    case False
    with len "1.prems" have "i = length biods" by simp
    with False len show ?thesis by (subst (1 2) headingLoop.simps) simp
  next
    case True
    let ?r = "Biod_calculateNewHeading i cur"
    have same: "cur ! i = biods ! i" using "1.prems"(3) True len by simp
    have r: "?r = Biod_calculateNewHeading i biods"
      by (rule Biod_calculateNewHeading_cong[OF "1.prems"(1) same])
    let ?cur' = "cur[i := snd ?r]"
    have sc: "sameCourse ?cur' biods"
      using "1.prems"(1) True course_Biod_calculateNewHeading[of i cur]
      by (auto simp: sameCourse_def nth_list_update)
    have le: "Suc i \<le> length biods" using True len by simp
    have rest: "\<forall>j. Suc i \<le> j \<and> j < length biods \<longrightarrow> ?cur' ! j = biods ! j"
      using "1.prems"(3) by simp
    note ih = "1.IH"[OF True sc le rest]
    have u: "[i..<length biods] = i # [Suc i..<length biods]"
      using True len by (simp add: upt_conv_Cons)
    have tk: "take (Suc i) ?cur' = take i cur @ [snd ?r]"
      using True by (simp add: take_Suc_conv_app_nth)
    have step: "headingLoop i cur acc = headingLoop (Suc i) ?cur' (acc @ [fst ?r])"
      using True by (subst headingLoop.simps) simp
    from ih have "fst (headingLoop i cur acc)
           = acc @ map (\<lambda>j. fst (Biod_calculateNewHeading j biods)) [i..<length biods]"
      unfolding step u r by simp
    moreover from ih have "snd (headingLoop i cur acc)
           = take i cur @ map (\<lambda>j. snd (Biod_calculateNewHeading j biods)) [i..<length biods]"
      unfolding step u tk unfolding r by simp
    ultimately show ?thesis by blast
  qed
qed


lemma fst_Predator_move: "fst (Predator_move p h bs) = fst (Predator_move p h bs')"
  by (simp add: Predator_move_def Let_def)

lemma course_Emitter_update:
  "map position (Emitter_update e bs) = map position bs"
  "map heading (Emitter_update e bs) = map heading bs"
  by (simp_all add: Emitter_update_def)

lemma course_Predator_move:
  "map position (snd (Predator_move p h bs)) = map position bs"
  "map heading (snd (Predator_move p h bs)) = map heading bs"
  by (simp_all add: Predator_move_def Let_def course_Emitter_update)

lemma movePredators_snapshot:
  "fst (movePredators phs bs) = map (\<lambda>(p, h). fst (Predator_move p h bs)) phs
   \<and> map position (snd (movePredators phs bs)) = map position bs
   \<and> map heading (snd (movePredators phs bs)) = map heading bs"
proof (induction phs bs rule: movePredators.induct)
  case (1 bs)
  show ?case by simp
next
  case (2 p h rest bs)
  obtain p' bs' where m: "Predator_move p h bs = (p', bs')" by (cases "Predator_move p h bs")
  obtain qs bs'' where r: "movePredators rest bs' = (qs, bs'')"
    by (cases "movePredators rest bs'")
  from "2.IH"[OF m[symmetric]] r
  have ih: "qs = map (\<lambda>(p, h). fst (Predator_move p h bs')) rest"
    "map position bs'' = map position bs'" "map heading bs'' = map heading bs'"
    by simp_all
  have c: "map position bs' = map position bs" "map heading bs' = map heading bs"
    using course_Predator_move[of p h bs] m by simp_all
  have "qs = map (\<lambda>(p, h). fst (Predator_move p h bs)) rest"
    unfolding ih(1) by (rule map_cong) (auto simp: fst_Predator_move[of _ _ bs' bs])
  then show ?case using m r ih c by simp
qed

lemma zip_with_image: "zip xs (map f xs) = map (\<lambda>x. (x, f x)) xs"
  by (induction xs) simp_all

text \<open>
  C9.  In the biod phase the loop that collects the new headings threads a flock in which
  the biods already visited have had their diagnostic fields set and their
  \<open>emitterInfluences\<close> emptied; all the same, the heading it collects for every biod is the
  one \<open>calculateNewHeading\<close> gives on the flock as it stood when the phase began, no
  position or heading changes while the headings are collected, and every move takes the
  heading computed from that flock.  In the predator phase every predator moves by the
  heading computed from the flock as it stood when the phase began, and the phase leaves
  the positions and headings of the biods as they were.
\<close>

theorem headings_from_one_snapshot:
  "fst (headingLoop 0 biods [])
     = map (\<lambda>i. fst (Biod_calculateNewHeading i biods)) [0..<length biods]
   \<and> map position (snd (headingLoop 0 biods [])) = map position biods
   \<and> map heading (snd (headingLoop 0 biods [])) = map heading biods
   \<and> updateBiods biods
     = map (\<lambda>i. Biod_move (snd (Biod_calculateNewHeading i biods))
                   (fst (Biod_calculateNewHeading i biods))) [0..<length biods]
   \<and> fst (updatePredators ps biods)
     = map (\<lambda>p. fst (Predator_move p (Predator_calculateNewHeading p biods) biods)) ps
   \<and> map position (snd (updatePredators ps biods)) = map position biods
   \<and> map heading (snd (updatePredators ps biods)) = map heading biods"
proof -
  have sc: "sameCourse biods biods" by (simp add: sameCourse_def)
  from headingLoop_snapshot[OF sc, of 0 "[]"]
  have h: "fst (headingLoop 0 biods [])
      = map (\<lambda>i. fst (Biod_calculateNewHeading i biods)) [0..<length biods]"
    and s: "snd (headingLoop 0 biods [])
      = map (\<lambda>i. snd (Biod_calculateNewHeading i biods)) [0..<length biods]"
    by simp_all
  have p: "map position (snd (headingLoop 0 biods [])) = map position biods"
    unfolding s by (rule nth_equalityI) (simp_all add: course_Biod_calculateNewHeading)
  have d: "map heading (snd (headingLoop 0 biods [])) = map heading biods"
    unfolding s by (rule nth_equalityI) (simp_all add: course_Biod_calculateNewHeading)
  have u: "updateBiods biods
     = map (\<lambda>i. Biod_move (snd (Biod_calculateNewHeading i biods))
                   (fst (Biod_calculateNewHeading i biods))) [0..<length biods]"
  proof -
    have "updateBiods biods = map (\<lambda>(b, h). Biod_move b h)
        (zip (snd (headingLoop 0 biods [])) (fst (headingLoop 0 biods [])))"
      by (simp add: updateBiods_def split: prod.splits)
    also have "\<dots> = map (\<lambda>i. Biod_move (snd (Biod_calculateNewHeading i biods))
                   (fst (Biod_calculateNewHeading i biods))) [0..<length biods]"
      unfolding h s by (rule nth_equalityI) simp_all
    finally show ?thesis .
  qed
  note m = movePredators_snapshot[of "zip ps (map (\<lambda>p. Predator_calculateNewHeading p biods) ps)" biods]
  have q: "fst (updatePredators ps biods)
     = map (\<lambda>p. fst (Predator_move p (Predator_calculateNewHeading p biods) biods)) ps"
    unfolding updatePredators_def Let_def using m
    by (simp add: zip_with_image comp_def)
  have q': "map position (snd (updatePredators ps biods)) = map position biods"
    "map heading (snd (updatePredators ps biods)) = map heading biods"
    unfolding updatePredators_def Let_def using m by simp_all
  from h p d u q q' show ?thesis by blast
qed

theorem headings_from_one_snapshot_witness:
  "fst (headingLoop 0
     [(Biod (Vector 3 4) 3 10 7 40 200 20 (Vector 800 600))
        \<lparr>emitterInfluences := [Vector (3 / 5) (9 / 5)]\<rparr>,
      Biod (Vector 300 400) 3 10 7 40 200 20 (Vector 800 600)] [])
   = [Vector 0 1, Vector (- 3 / 5) (- 4 / 5)]"
proof -
  let ?a = "(Biod (Vector 3 4) 3 10 7 40 200 20 (Vector 800 600))
        \<lparr>emitterInfluences := [Vector (3 / 5) (9 / 5)]\<rparr>"
  let ?b = "Biod (Vector 300 400) 3 10 7 40 200 20 (Vector 800 600)"
  have f: "position ?a = Vector 3 4" "position ?b = Vector 300 400"
    "sightRadius ?a = 200" "sightRadius ?b = 200"
    "emitterInfluences ?a = [Vector (3 / 5) (9 / 5)]" "emitterInfluences ?b = []"
    by (simp_all add: Biod_def)
  have g: "Vector_getDistance (Vector 300 400) (Vector 3 4) = 495"
    "Vector_getDistance (Vector 3 4) (Vector 300 400) = 495"
    by (simp_all add: Vector_getDistance_def sqrt_245025)
  have n0: "Biod_neighbors 0 [?a, ?b] = []"
    by (simp add: Biod_neighbors_def upt_2 f g)
  have n1: "Biod_neighbors (Suc 0) [?a, ?b] = []"
    by (simp add: Biod_neighbors_def upt_2 f g)
  have da: "Vector_getDirectionTo (Vector 3 4) (Vector 0 0) = Vector (- 3 / 5) (- 4 / 5)"
    by (simp add: Vector_getDirectionTo_def Vector_normalize_def Vector_length_def sqrt_25)
  have db: "Vector_getDirectionTo (Vector 300 400) (Vector 0 0) = Vector (- 3 / 5) (- 4 / 5)"
    by (simp add: Vector_getDirectionTo_def Vector_normalize_def Vector_length_def sqrt_250000)
  have s0: "Biod_forceSum 0 [?a, ?b] = Vector 0 1"
    by (simp add: Biod_forceSum_def Biod_claustrophobia_def Biod_avgHeading_def
        Biod_avgPosition_def Biod_emitterSum_def crowdLoop_no_neighbors[OF n0] n0 f da
        averageBy_def Vector_normalize_zero Vector_add_def)
  have s1: "Biod_forceSum (Suc 0) [?a, ?b] = Vector (- 3 / 5) (- 4 / 5)"
    by (simp add: Biod_forceSum_def Biod_claustrophobia_def Biod_avgHeading_def
        Biod_avgPosition_def Biod_emitterSum_def crowdLoop_no_neighbors[OF n1] n1 f db
        averageBy_def Vector_normalize_zero Vector_add_def)
  have u1: "Vector_length (Vector (- 3 / 5) (- 4 / 5)) = 1"
    by (simp add: Vector_length_def)
  have u0: "Vector_length (Vector 0 1) = 1"
    by (simp add: Vector_length_def)
  have h0: "fst (Biod_calculateNewHeading 0 [?a, ?b]) = Vector 0 1"
    using Vector_normalize_div_unit[OF u0, of 4]
    by (simp add: Biod_calculateNewHeading_def Biod_combined_def s0 f)
  have h1: "fst (Biod_calculateNewHeading (Suc 0) [?a, ?b]) = Vector (- 3 / 5) (- 4 / 5)"
    using Vector_normalize_div_unit[OF u1, of 3]
    by (simp add: Biod_calculateNewHeading_def Biod_combined_def s1 f)
  have "fst (headingLoop 0 [?a, ?b] [])
      = map (\<lambda>i. fst (Biod_calculateNewHeading i [?a, ?b])) [0..<length [?a, ?b]]"
    using headings_from_one_snapshot [of "[?a, ?b]" "[]"] by blast
  then show ?thesis using h0 h1 by (simp add: upt_2)
qed

end
